theory Spec2Isabelle
  imports Complex_Main "HOL-Library.Multiset"
begin

section \<open>JavaScript numbers\<close>

text \<open>
  A JavaScript \<open>number\<close> is an IEEE double. Finite values are idealised as reals
  (rounding and the sign of zero are not modelled); the three non-finite values that
  the arithmetic of the program can produce are written out, since the program
  tests for them (\<open>x || 0\<close>, \<open>Number.isNaN\<close>).
\<close>

datatype jsnum = Fin real | PosInf | NegInf | NaN

fun jsneg :: "jsnum \<Rightarrow> jsnum" where
  "jsneg (Fin a) = Fin (- a)"
| "jsneg PosInf = NegInf"
| "jsneg NegInf = PosInf"
| "jsneg NaN = NaN"

fun jsadd :: "jsnum \<Rightarrow> jsnum \<Rightarrow> jsnum" where
  "jsadd NaN _ = NaN"
| "jsadd _ NaN = NaN"
| "jsadd (Fin a) (Fin b) = Fin (a + b)"
| "jsadd PosInf NegInf = NaN"
| "jsadd NegInf PosInf = NaN"
| "jsadd PosInf _ = PosInf"
| "jsadd _ PosInf = PosInf"
| "jsadd NegInf _ = NegInf"
| "jsadd _ NegInf = NegInf"

definition jssub :: "jsnum \<Rightarrow> jsnum \<Rightarrow> jsnum" where
  "jssub a b = jsadd a (jsneg b)"

text \<open>The sign of a number other than NaN: \<open>-1\<close>, \<open>0\<close> or \<open>1\<close>.\<close>

fun jssign :: "jsnum \<Rightarrow> real" where
  "jssign (Fin a) = sgn a"
| "jssign PosInf = 1"
| "jssign NegInf = - 1"
| "jssign NaN = 0"

definition signed_inf :: "real \<Rightarrow> jsnum" where
  "signed_inf s = (if s < 0 then NegInf else PosInf)"

fun jsmul :: "jsnum \<Rightarrow> jsnum \<Rightarrow> jsnum" where
  "jsmul NaN _ = NaN"
| "jsmul _ NaN = NaN"
| "jsmul (Fin a) (Fin b) = Fin (a * b)"
| "jsmul x y = (if jssign x * jssign y = 0 then NaN else signed_inf (jssign x * jssign y))"

fun jsdiv :: "jsnum \<Rightarrow> jsnum \<Rightarrow> jsnum" where
  "jsdiv NaN _ = NaN"
| "jsdiv _ NaN = NaN"
| "jsdiv (Fin a) (Fin b) =
     (if b = 0 then (if a = 0 then NaN else signed_inf a) else Fin (a / b))"
| "jsdiv (Fin a) _ = Fin 0"
| "jsdiv x (Fin b) = signed_inf (jssign x * (if b < 0 then - 1 else 1))"
| "jsdiv _ _ = NaN"

text \<open>\<open>x || 0\<close>: the falsy numbers are \<open>0\<close> and \<open>NaN\<close>.\<close>

fun js_or_zero :: "jsnum \<Rightarrow> jsnum" where
  "js_or_zero NaN = Fin 0"
| "js_or_zero x = x"

datatype error = MalformedInput | TypeError | RangeError

section \<open>Strings\<close>

text \<open>
  Texts are lists of 8-bit characters (Latin-1). \<open>trim\<close> and \<open>parseFloat\<close> strip
  the white space and line terminators of that range; \<open>toLowerCase\<close> maps its
  capital letters.
\<close>

definition LF :: char where "LF = CHR 0x0A"
definition CR :: char where "CR = CHR 0x0D"
definition comma :: char where "comma = CHR '',''"
definition dquote :: char where "dquote = CHR 0x22"

definition is_space :: "char \<Rightarrow> bool" where
  "is_space c = (c \<in> set [CHR 0x09, CHR 0x0A, CHR 0x0B, CHR 0x0C, CHR 0x0D, CHR 0x20, CHR 0xA0])"

definition trim :: "string \<Rightarrow> string" where
  "trim s = rev (dropWhile is_space (rev (dropWhile is_space s)))"

definition toLowerCase_char :: "char \<Rightarrow> char" where
  "toLowerCase_char c =
     (let n = (of_char c :: nat)
      in if (65 \<le> n \<and> n \<le> 90) \<or> (192 \<le> n \<and> n \<le> 222 \<and> n \<noteq> 215)
         then char_of (n + 32) else c)"

definition toLowerCase :: "string \<Rightarrow> string" where
  "toLowerCase s = map toLowerCase_char s"

text \<open>\<open>xs[i]\<close>: \<open>None\<close> stands for \<open>undefined\<close>.\<close>

definition js_nth :: "'a list \<Rightarrow> nat \<Rightarrow> 'a option" where
  "js_nth xs i = (if i < length xs then Some (xs ! i) else None)"

text \<open>A character read while a line or field is open goes in front of the first piece.\<close>

definition push_char :: "char \<Rightarrow> string list \<Rightarrow> string list" where
  "push_char c ls = (case ls of l # ls' \<Rightarrow> (c # l) # ls' | [] \<Rightarrow> [[c]])"

text \<open>\<open>s.split(d)\<close> for a one-character separator: empty fields are kept.\<close>

fun split_on :: "char \<Rightarrow> string \<Rightarrow> string list" where
  "split_on d [] = [[]]"
| "split_on d (c # cs) =
     (if c = d then [] # split_on d cs else push_char c (split_on d cs))"

text \<open>
  \<open>s.split(/\r?\n/)\<close>: every line feed ends a line, and a carriage return directly
  before a line feed belongs to the break.
\<close>

fun split_lines :: "string \<Rightarrow> string list" where
  "split_lines [] = [[]]"
| "split_lines (c # cs) =
     (if c = LF then [] # split_lines cs
      else if c = CR \<and> take 1 cs = [LF] then split_lines cs
      else push_char c (split_lines cs))"

subsection \<open>parseFloat\<close>

definition is_digit :: "char \<Rightarrow> bool" where
  "is_digit c = (48 \<le> (of_char c :: nat) \<and> (of_char c :: nat) \<le> 57)"

definition digits_value :: "string \<Rightarrow> nat" where
  "digits_value ds = fold (\<lambda>c acc. 10 * acc + (of_char c - 48)) ds 0"

text \<open>The exponent part \<open>e\<close>, optional sign, digits; without digits there is none.\<close>

definition exponent_part :: "string \<Rightarrow> int" where
  "exponent_part r =
     (case r of
        [] \<Rightarrow> 0
      | c # r1 \<Rightarrow>
          if c = CHR ''e'' \<or> c = CHR ''E'' then
            (let (neg, r2) = (case r1 of
                               [] \<Rightarrow> (False, r1)
                             | d # r' \<Rightarrow> if d = CHR ''-'' then (True, r')
                                         else if d = CHR ''+'' then (False, r') else (False, r1));
                 ds = takeWhile is_digit r2
             in if ds = [] then 0
                else if neg then - int (digits_value ds) else int (digits_value ds))
          else 0)"

definition scale10 :: "real \<Rightarrow> int \<Rightarrow> real" where
  "scale10 x e = (if e < 0 then x / 10 ^ nat (- e) else x * 10 ^ nat e)"

text \<open>
  \<open>parseFloat\<close> reads the longest prefix, after leading white space, that is a
  decimal literal; the value is not rounded and does not overflow.
\<close>

definition parseFloat :: "string \<Rightarrow> jsnum" where
  "parseFloat s =
     (let t = dropWhile is_space s;
          (neg, u) = (case t of
                        [] \<Rightarrow> (False, t)
                      | c # r \<Rightarrow> if c = CHR ''-'' then (True, r)
                                 else if c = CHR ''+'' then (False, r) else (False, t))
      in if take 8 u = ''Infinity'' then (if neg then NegInf else PosInf)
         else
           (let ip = takeWhile is_digit u;
                r1 = drop (length ip) u;
                (fp, r2) = (case r1 of
                              [] \<Rightarrow> ([], r1)
                            | c # r \<Rightarrow> if c = CHR ''.''
                                       then (takeWhile is_digit r, dropWhile is_digit r)
                                       else ([], r1))
            in if ip = [] \<and> fp = [] then NaN
               else
                 (let m = real (digits_value ip) + real (digits_value fp) / 10 ^ length fp;
                      v = scale10 m (exponent_part r2)
                  in Fin (if neg then - v else v))))"

section \<open>Tabular parser (lib/data-parser)\<close>

text \<open>
  The first alternative of the cell pattern, after its opening quote: runs of
  characters other than the quote and doubled quotes, then the closing quote. The
  result is the number of characters read, the closing quote included. The matcher
  is greedy and backtracks: at a doubled quote it first reads on, and closes at the
  first of the two quotes only when reading on finds no closing quote.
\<close>

fun quoted_body :: "string \<Rightarrow> nat option" where
  "quoted_body [] = None"
| "quoted_body [c] = (if c = dquote then Some 1 else None)"
| "quoted_body (c # d # ds) =
     (if c \<noteq> dquote then map_option Suc (quoted_body (d # ds))
      else if d = dquote then
        (case quoted_body ds of Some n \<Rightarrow> Some (n + 2) | None \<Rightarrow> Some 1)
      else Some 1)"

text \<open>
  \<open>line.matchAll(regex)\<close>: at each position the quoted alternative is tried first,
  then a maximal run of characters other than the comma; where neither matches (at
  a comma) the scan moves on by one character.
\<close>

function row_matches :: "string \<Rightarrow> string list" where
  "row_matches [] = []"
| "row_matches (c # cs) =
     (case (if c = dquote then quoted_body cs else None) of
        Some n \<Rightarrow> (c # take n cs) # row_matches (drop n cs)
      | None \<Rightarrow>
          if c = comma then row_matches cs
          else (c # takeWhile (\<lambda>x. x \<noteq> comma) cs) # row_matches (dropWhile (\<lambda>x. x \<noteq> comma) cs))"
  by pat_completeness auto
termination
  by (relation "measure length") (auto simp: less_Suc_eq_le length_dropWhile_le)

text \<open>\<open>cell.replace(/""/g, '"')\<close>\<close>

fun replace_doubled :: "string \<Rightarrow> string" where
  "replace_doubled (a # b # cs) =
     (if a = dquote \<and> b = dquote then dquote # replace_doubled cs
      else a # replace_doubled (b # cs))"
| "replace_doubled cs = cs"

definition unquote :: "string \<Rightarrow> string" where
  "unquote cell =
     (if cell \<noteq> [] \<and> hd cell = dquote \<and> last cell = dquote
      then replace_doubled (butlast (tl cell)) else cell)"

definition parse_row :: "string \<Rightarrow> string list" where
  "parse_row line = map (\<lambda>m. trim (unquote m)) (row_matches line)"

definition csv_lines :: "string \<Rightarrow> string list" where
  "csv_lines content = filter (\<lambda>line. length (trim line) > 0) (split_lines (trim content))"

text \<open>The non-blank lines of a text as it stands, for comparison with \<open>csv_lines\<close>.\<close>

definition nonblank_lines :: "string \<Rightarrow> string list" where
  "nonblank_lines content = filter (\<lambda>line. length (trim line) > 0) (split_lines content)"

definition parseCSV :: "string \<Rightarrow> error + (string list \<times> string list list)" where
  "parseCSV content =
     (let lines = csv_lines content
      in if length lines < 2 then Inl MalformedInput
         else Inr (map trim (split_on comma (hd lines)), map parse_row (drop 1 lines)))"

section \<open>Feature encoder (lib/data-parser)\<close>

text \<open>
  Reading a property of an object literal finds its own keys first and then the
  members every object inherits from \<open>Object.prototype\<close>; \<open>None\<close> stands for
  \<open>undefined\<close>.
\<close>

datatype 'a js_value = Val 'a | ProtoMember string

definition object_prototype_keys :: "string list" where
  "object_prototype_keys =
     [''constructor'', ''__proto__'', ''hasOwnProperty'', ''isPrototypeOf'',
      ''propertyIsEnumerable'', ''toLocaleString'', ''toString'', ''valueOf'',
      ''__defineGetter__'', ''__defineSetter__'', ''__lookupGetter__'', ''__lookupSetter__'']"

definition object_get :: "(string \<times> 'a) list \<Rightarrow> string \<Rightarrow> 'a js_value option" where
  "object_get obj k =
     (case map_of obj k of
        Some v \<Rightarrow> Some (Val v)
      | None \<Rightarrow> if k \<in> set object_prototype_keys then Some (ProtoMember k) else None)"

text \<open>\<open>xs.findIndex(P)\<close>: \<open>None\<close> stands for \<open>-1\<close>.\<close>

fun findIndex :: "('a \<Rightarrow> bool) \<Rightarrow> 'a list \<Rightarrow> nat option" where
  "findIndex P [] = None"
| "findIndex P (x # xs) = (if P x then Some 0 else map_option Suc (findIndex P xs))"

record ('a, 'b) training_data =
  features :: "'a list list"
  labels :: "'b list"

record ('a, 'b) converted_data = "('a, 'b) training_data" +
  hasLabels :: bool
  rowCount :: nat

definition featureColumns :: "string list" where
  "featureColumns =
    [''age'', ''gender'', ''residence'', ''homemaker'', ''student'', ''professional'',
     ''merchant'', ''agriculture_livestock'', ''various_jobs'', ''unemployed'',
     ''hospitalization_days'', ''body_temperature'', ''fever'', ''headache'',
     ''dizziness'', ''loss_of_appetite'', ''weakness'', ''myalgias'', ''arthralgias'',
     ''eye_pain'', ''hemorrhages'', ''vomiting'', ''abdominal_pain'', ''chills'',
     ''hemoptysis'', ''edema'', ''jaundice'', ''bruises'', ''petechiae'', ''rash'',
     ''diarrhea'', ''respiratory_difficulty'', ''itching'', ''hematocrit'', ''hemoglobin'',
     ''red_blood_cells'', ''white_blood_cells'', ''neutrophils'', ''eosinophils'',
     ''basophils'', ''monocytes'', ''lymphocytes'', ''platelets'', ''AST'', ''ALT'',
     ''ALP'', ''total_bilirubin'', ''direct_bilirubin'', ''indirect_bilirubin'',
     ''total_proteins'', ''albumin'', ''creatinine'', ''urea'']"

definition labelColumn :: string where
  "labelColumn = ''diagnosis''"

definition diseaseMap :: "(string \<times> nat) list" where
  "diseaseMap = [(''dengue'', 0), (''malaria'', 1), (''leptospirosis'', 2)]"

definition column_index :: "string list \<Rightarrow> string \<Rightarrow> nat option" where
  "column_index headers col = findIndex (\<lambda>h. toLowerCase h = toLowerCase col) headers"

definition skip_row :: "string list \<Rightarrow> string list \<Rightarrow> bool" where
  "skip_row headers row =
     (length row = 0 \<or> list_all (\<lambda>cell. cell = []) row \<or> length row < length headers)"

text \<open>
  One entry of \<open>featureRow\<close>. Where \<open>row[idx]\<close> is \<open>undefined\<close>, \<open>toLowerCase\<close> throws
  and \<open>parseFloat\<close> gives \<open>NaN\<close>.
\<close>

definition encode_feature :: "string list \<Rightarrow> nat option \<times> nat \<Rightarrow> error + jsnum" where
  "encode_feature row = (\<lambda>(idx, featureIdx).
     case idx of
       None \<Rightarrow> Inr (Fin 0)
     | Some i \<Rightarrow>
         (let value = js_nth row i;
              columnName = toLowerCase (featureColumns ! featureIdx)
          in if columnName = ''gender'' then
               (case value of
                  None \<Rightarrow> Inl TypeError
                | Some v \<Rightarrow> Inr (if toLowerCase v = ''m'' then Fin 1 else Fin 0))
             else if columnName = ''residence'' then
               (case value of
                  None \<Rightarrow> Inl TypeError
                | Some v \<Rightarrow> Inr (if toLowerCase v = ''urban'' \<or> toLowerCase v = ''urbana''
                                 then Fin 1 else Fin 0))
             else
               (let num = (case value of None \<Rightarrow> NaN | Some v \<Rightarrow> parseFloat v)
                in Inr (if num = NaN then Fin 0 else num))))"

text \<open>A \<open>map\<close> whose callback may throw: the first error ends it.\<close>

fun collect :: "('e + 'a) list \<Rightarrow> 'e + 'a list" where
  "collect [] = Inr []"
| "collect (x # xs) =
     (case x of
        Inl e \<Rightarrow> Inl e
      | Inr v \<Rightarrow> (case collect xs of Inl e \<Rightarrow> Inl e | Inr vs \<Rightarrow> Inr (v # vs)))"

definition featureRow :: "nat option list \<Rightarrow> string list \<Rightarrow> error + jsnum list" where
  "featureRow featureIndices row =
     collect (map (encode_feature row) (zip featureIndices [0..<length featureIndices]))"

definition row_label :: "nat \<Rightarrow> string list \<Rightarrow> nat js_value" where
  "row_label labelIndex row =
     (let diagnosis = (case js_nth row labelIndex of None \<Rightarrow> [] | Some v \<Rightarrow> toLowerCase v)
      in case object_get diseaseMap diagnosis of None \<Rightarrow> Val 0 | Some l \<Rightarrow> l)"

text \<open>The loop over the rows; the result lists what was pushed, in order.\<close>

fun convert_rows ::
  "string list \<Rightarrow> nat option list \<Rightarrow> nat option \<Rightarrow> string list list
     \<Rightarrow> error + (jsnum list list \<times> nat js_value list)" where
  "convert_rows headers featureIndices labelIndex [] = Inr ([], [])"
| "convert_rows headers featureIndices labelIndex (row # rest) =
     (if skip_row headers row then convert_rows headers featureIndices labelIndex rest
      else
        (case featureRow featureIndices row of
           Inl e \<Rightarrow> Inl e
         | Inr fr \<Rightarrow>
             (case convert_rows headers featureIndices labelIndex rest of
                Inl e \<Rightarrow> Inl e
              | Inr (fs, ls) \<Rightarrow>
                  Inr (fr # fs,
                       (case labelIndex of None \<Rightarrow> ls | Some li \<Rightarrow> row_label li row # ls)))))"

definition convertToTrainingData ::
  "string list \<Rightarrow> string list list \<Rightarrow> error + (jsnum, nat js_value) converted_data" where
  "convertToTrainingData headers rows =
     (let featureIndices = map (column_index headers) featureColumns;
          labelIndex = column_index headers labelColumn
      in case convert_rows headers featureIndices labelIndex rows of
           Inl e \<Rightarrow> Inl e
         | Inr (fs, ls) \<Rightarrow>
             Inr \<lparr> features = fs, labels = ls,
                   hasLabels = (labelIndex \<noteq> None), rowCount = length fs \<rparr>)"

section \<open>Random numbers\<close>

text \<open>
  \<open>Math.random()\<close> returns a number in \<open>[0, 1)\<close>. A run of the program is given the
  sequence of these results; each function that draws takes the number of draws made
  so far and returns the new count.
\<close>

typedef unit_real = "{x :: real. 0 \<le> x \<and> x < 1}"
  by (rule exI[of _ 0]) simp

setup_lifting type_definition_unit_real

lift_definition half :: unit_real is "1 / 2"
  by simp

type_synonym random_source = "nat \<Rightarrow> unit_real"

definition rand :: "random_source \<Rightarrow> nat \<Rightarrow> real" where
  "rand rnd p = Rep_unit_real (rnd p)"

text \<open>\<open>Math.floor(Math.random() * n)\<close>\<close>

definition rand_int :: "random_source \<Rightarrow> nat \<Rightarrow> nat \<Rightarrow> nat" where
  "rand_int rnd p n = nat \<lfloor>rand rnd p * real n\<rfloor>"

text \<open>\<open>[xs[i], xs[j]] = [xs[j], xs[i]]\<close> for two indices of the list.\<close>

definition swap :: "'a list \<Rightarrow> nat \<Rightarrow> nat \<Rightarrow> 'a list" where
  "swap xs i j = (xs[i := xs ! j])[j := xs ! i]"

text \<open>
  The shuffle loop \<open>for (i = xs.length - 1; i > 0; i--)\<close>, entered at index \<open>i\<close>: the
  drawn index \<open>j\<close> is at most \<open>i\<close>.
\<close>

fun shuffle_loop :: "random_source \<Rightarrow> nat \<Rightarrow> nat \<Rightarrow> 'a list \<Rightarrow> 'a list \<times> nat" where
  "shuffle_loop rnd 0 p xs = (xs, p)"
| "shuffle_loop rnd (Suc i) p xs =
     (let j = rand_int rnd p (Suc i + 1)
      in shuffle_loop rnd i (p + 1) (swap xs (Suc i) j))"

definition shuffle :: "random_source \<Rightarrow> nat \<Rightarrow> 'a list \<Rightarrow> 'a list \<times> nat" where
  "shuffle rnd p xs = shuffle_loop rnd (length xs - 1) p xs"

section \<open>Synthetic cohort generator (lib/data-parser)\<close>

text \<open>\<open>Math.random() > t ? 1 : 0\<close>\<close>

definition flag :: "real \<Rightarrow> real \<Rightarrow> real" where
  "flag u t = (if u > t then 1 else 0)"

text \<open>
  The symptoms and laboratory values that the disease-specific block may override,
  with the number of draws the block made.
\<close>

record profile =
  fever :: real
  headache :: real
  dizziness :: real
  loss_of_appetite :: real
  weakness :: real
  myalgias :: real
  arthralgias :: real
  eye_pain :: real
  hemorrhages :: real
  vomiting :: real
  abdominal_pain :: real
  chills :: real
  jaundice :: real
  petechiae :: real
  rash :: real
  platelets :: real
  AST :: real
  ALT :: real
  total_bilirubin :: real
  draws :: nat

text \<open>
  The values before the block: symptoms 0, and the four laboratory defaults from the
  draws \<open>u 12\<close> to \<open>u 15\<close> of the record.
\<close>

definition initial_profile :: "(nat \<Rightarrow> real) \<Rightarrow> profile" where
  "initial_profile u =
     \<lparr> fever = 0, headache = 0, dizziness = 0, loss_of_appetite = 0, weakness = 0,
       myalgias = 0, arthralgias = 0, eye_pain = 0, hemorrhages = 0, vomiting = 0,
       abdominal_pain = 0, chills = 0, jaundice = 0, petechiae = 0, rash = 0,
       platelets = 150 + u 12 * 250, AST = 10 + u 13 * 40, ALT = 10 + u 14 * 40,
       total_bilirubin = 0.3 + u 15 * 1.5, draws = 16 \<rparr>"

definition disease_profile :: "nat \<Rightarrow> (nat \<Rightarrow> real) \<Rightarrow> profile" where
  "disease_profile disease u =
     (if disease = 0 then
        (initial_profile u)
          \<lparr> fever := flag (u 16) 0.05, headache := flag (u 17) 0.1,
            weakness := flag (u 18) 0.15, rash := flag (u 19) 0.3,
            arthralgias := flag (u 20) 0.2, myalgias := flag (u 21) 0.15,
            eye_pain := flag (u 22) 0.25, hemorrhages := flag (u 23) 0.5,
            petechiae := flag (u 24) 0.4, loss_of_appetite := flag (u 25) 0.3,
            platelets := max 50 (50 + u 26 * 150), draws := 27 \<rparr>
      else if disease = 1 then
        (initial_profile u)
          \<lparr> fever := flag (u 16) 0.02, chills := flag (u 17) 0.1,
            headache := flag (u 18) 0.15, weakness := flag (u 19) 0.1,
            vomiting := flag (u 20) 0.4, myalgias := flag (u 21) 0.3,
            dizziness := flag (u 22) 0.35, abdominal_pain := flag (u 23) 0.45,
            platelets := max 80 (80 + u 24 * 120),
            total_bilirubin := 0.5 + u 25 * 2.0, draws := 26 \<rparr>
      else
        (initial_profile u)
          \<lparr> fever := flag (u 16) 0.05, headache := flag (u 17) 0.1,
            myalgias := flag (u 18) 0.1, chills := flag (u 19) 0.2,
            vomiting := flag (u 20) 0.35, jaundice := flag (u 21) 0.4,
            weakness := flag (u 22) 0.2, abdominal_pain := flag (u 23) 0.3,
            AST := 30 + u 24 * 100, ALT := 30 + u 25 * 100,
            total_bilirubin := 1.0 + u 26 * 3.0, draws := 27 \<rparr>)"

text \<open>
  One pass of the record loop, for the planned class \<open>diseases[i]\<close> (\<open>None\<close> when
  \<open>i\<close> is beyond the list). \<open>diseases[i] || Math.floor(Math.random() * 3)\<close> draws a class
  when the planned one is \<open>undefined\<close> or the falsy number 0. The result is the
  feature vector, the label and the new draw count.
\<close>

definition sample_record :: "random_source \<Rightarrow> nat \<Rightarrow> nat option \<Rightarrow> (real list \<times> nat) \<times> nat" where
  "sample_record rnd p planned =
     (let (disease, q) =
            (case planned of
               Some d \<Rightarrow> if d \<noteq> 0 then (d, p) else (rand_int rnd p 3, p + 1)
             | None \<Rightarrow> (rand_int rnd p 3, p + 1));
          u = (\<lambda>k. rand rnd (q + k));
          age = 20 + real_of_int \<lfloor>u 0 * 50\<rfloor>;
          gender = flag (u 1) 0.5;
          residence = flag (u 2) 0.5;
          homemaker = flag (u 3) 0.8;
          student = flag (u 4) 0.7;
          professional = flag (u 5) 0.6;
          merchant = flag (u 6) 0.8;
          agriculture_livestock = flag (u 7) 0.85;
          various_jobs = flag (u 8) 0.75;
          unemployed = flag (u 9) 0.9;
          hospitalization_days = 1 + real_of_int \<lfloor>u 10 * 10\<rfloor>;
          body_temperature = 36 + u 11 * 5;
          hemoptysis = 0; edema = 0; bruises = 0; diarrhea = 0;
          respiratory_difficulty = 0; itching = 0;
          pr = disease_profile disease u;
          v = (\<lambda>k. u (draws pr + k));
          hematocrit = 35 + v 0 * 15;
          hemoglobin = 11 + v 1 * 6;
          red_blood_cells = 3.5 + v 2 * 2;
          white_blood_cells = 4 + v 3 * 8;
          neutrophils = 40 + v 4 * 30;
          eosinophils = v 5 * 5;
          basophils = v 6 * 2;
          monocytes = 2 + v 7 * 8;
          lymphocytes = 20 + v 8 * 25;
          ALP = 30 + v 9 * 100;
          direct_bilirubin = 0.1 + v 10 * 0.4;
          indirect_bilirubin = total_bilirubin pr - direct_bilirubin;
          total_proteins = 6 + v 11 * 2;
          albumin = 3.5 + v 12 * 1.5;
          creatinine = 0.6 + v 13 * 0.8;
          urea = 10 + v 14 * 30
      in (([age, gender, residence, homemaker, student, professional, merchant,
            agriculture_livestock, various_jobs, unemployed, hospitalization_days,
            body_temperature, fever pr, headache pr, dizziness pr, loss_of_appetite pr,
            weakness pr, myalgias pr, arthralgias pr, eye_pain pr, hemorrhages pr,
            vomiting pr, abdominal_pain pr, chills pr, hemoptysis, edema, jaundice pr,
            bruises, petechiae pr, rash pr, diarrhea, respiratory_difficulty, itching,
            hematocrit, hemoglobin, red_blood_cells, white_blood_cells, neutrophils,
            eosinophils, basophils, monocytes, lymphocytes, platelets pr, AST pr, ALT pr,
            ALP, total_bilirubin pr, direct_bilirubin, indirect_bilirubin, total_proteins,
            albumin, creatinine, urea],
           disease),
          q + draws pr + 15))"

text \<open>The record loop from index \<open>i\<close>, with \<open>n\<close> records still to make.\<close>

fun sample_loop :: "random_source \<Rightarrow> nat list \<Rightarrow> nat \<Rightarrow> nat \<Rightarrow> nat \<Rightarrow> (real list \<times> nat) list" where
  "sample_loop rnd diseases i 0 p = []"
| "sample_loop rnd diseases i (Suc n) p =
     (let (r, p') = sample_record rnd p (js_nth diseases i)
      in r # sample_loop rnd diseases (i + 1) n p')"

definition generateSampleData :: "nat \<Rightarrow> random_source \<Rightarrow> (real, nat) training_data" where
  "generateSampleData numSamples rnd =
     (let samplesPerClass = numSamples div 3;
          planned = concat (map (\<lambda>d. replicate samplesPerClass d) [0, 1, 2]);
          (diseases, p) = shuffle rnd 0 planned;
          records = sample_loop rnd diseases 0 numSamples p
      in \<lparr> features = map fst records, labels = map snd records \<rparr>)"

text \<open>How many of the labels are class \<open>c\<close>.\<close>

definition class_count :: "'a list \<Rightarrow> 'a \<Rightarrow> nat" where
  "class_count ls c = length (filter (\<lambda>l. l = c) ls)"

section \<open>Normalizer (lib/ml-models)\<close>

text \<open>
  The feature values come from the input, so their differences and quotients can
  leave the range of doubles. The result of an operation is infinite when its exact
  value reaches \<open>2 ^ 1024 - 2 ^ 970\<close> in magnitude, half a unit in the last place
  beyond the largest double. Below that the exact value stands for the rounded one:
  rounding keeps the order of two values and leaves 0 and 1 as they are, and the
  difference of two distinct doubles does not round to 0.
\<close>

definition overflow_bound :: real where
  "overflow_bound = 2 ^ 1024 - 2 ^ 970"

definition fl :: "real \<Rightarrow> jsnum" where
  "fl r = (if overflow_bound \<le> \<bar>r\<bar> then signed_inf r else Fin r)"

fun js_round :: "jsnum \<Rightarrow> jsnum" where
  "js_round (Fin r) = fl r"
| "js_round x = x"

definition flsub :: "jsnum \<Rightarrow> jsnum \<Rightarrow> jsnum" where
  "flsub a b = js_round (jssub a b)"

definition fldiv :: "jsnum \<Rightarrow> jsnum \<Rightarrow> jsnum" where
  "fldiv a b = js_round (jsdiv a b)"

text \<open>
  \<open>Math.min(...column)\<close> and \<open>Math.max(...column)\<close>: the arguments are compared in
  turn; an \<open>undefined\<close> or \<open>NaN\<close> argument makes the result \<open>NaN\<close>, and without
  arguments the results are the two infinities.
\<close>

fun js_min :: "jsnum \<Rightarrow> jsnum \<Rightarrow> jsnum" where
  "js_min NaN _ = NaN"
| "js_min _ NaN = NaN"
| "js_min NegInf _ = NegInf"
| "js_min _ NegInf = NegInf"
| "js_min PosInf y = y"
| "js_min x PosInf = x"
| "js_min (Fin a) (Fin b) = Fin (min a b)"

fun js_max :: "jsnum \<Rightarrow> jsnum \<Rightarrow> jsnum" where
  "js_max NaN _ = NaN"
| "js_max _ NaN = NaN"
| "js_max PosInf _ = PosInf"
| "js_max _ PosInf = PosInf"
| "js_max NegInf y = y"
| "js_max x NegInf = x"
| "js_max (Fin a) (Fin b) = Fin (max a b)"

definition to_number :: "jsnum option \<Rightarrow> jsnum" where
  "to_number arg = (case arg of None \<Rightarrow> NaN | Some v \<Rightarrow> v)"

definition math_min :: "jsnum option list \<Rightarrow> jsnum" where
  "math_min column = fold (\<lambda>arg acc. js_min acc (to_number arg)) column PosInf"

definition math_max :: "jsnum option list \<Rightarrow> jsnum" where
  "math_max column = fold (\<lambda>arg acc. js_max acc (to_number arg)) column NegInf"

text \<open>An element of a number array used in arithmetic: \<open>undefined\<close> becomes \<open>NaN\<close>.\<close>

definition num_at :: "jsnum list \<Rightarrow> nat \<Rightarrow> jsnum" where
  "num_at xs i = (case js_nth xs i of None \<Rightarrow> NaN | Some v \<Rightarrow> v)"

text \<open>The rescaling of one value of column \<open>i\<close>, shared by the three functions that normalize.\<close>

definition rescale :: "jsnum list \<Rightarrow> jsnum list \<Rightarrow> jsnum \<times> nat \<Rightarrow> jsnum" where
  "rescale min_col max_col = (\<lambda>(value, i).
     let range = flsub (num_at max_col i) (num_at min_col i)
     in if range = Fin 0 then Fin 0 else fldiv (flsub value (num_at min_col i)) range)"

record normalization =
  min_col :: "jsnum list"
  max_col :: "jsnum list"

record normalized_features = normalization +
  normalized :: "jsnum list list"

text \<open>
  \<open>normalizeFeatures\<close> on a \<open>number[][]\<close>, whose entries may be infinite or \<open>NaN\<close>.
  \<open>features[0].length\<close> throws a TypeError on an empty matrix. Spreading a column
  into the arguments of \<open>Math.min\<close> throws a RangeError when the matrix has more rows
  than the engine accepts arguments in one call; that number depends on the engine
  and is a parameter here.
\<close>

definition normalizeFeatures :: "nat \<Rightarrow> jsnum list list \<Rightarrow> error + normalized_features" where
  "normalizeFeatures max_arguments feats =
     (case feats of
        [] \<Rightarrow> Inl TypeError
      | row0 # _ \<Rightarrow>
          (let numFeatures = length row0;
               column = (\<lambda>i. map (\<lambda>row. js_nth row i) feats);
               mn = map (\<lambda>i. math_min (column i)) [0..<numFeatures];
               mx = map (\<lambda>i. math_max (column i)) [0..<numFeatures]
           in if 0 < numFeatures \<and> max_arguments < length feats then Inl RangeError
              else Inr \<lparr> min_col = mn, max_col = mx,
                         normalized =
                           map (\<lambda>row. map (rescale mn mx) (zip row [0..<length row]))
                               feats \<rparr>))"

section \<open>Evaluation engine (lib/ml-models)\<close>

text \<open>
  A confusion matrix is a \<open>number[][]\<close>. A hole of a row and a cell outside it both
  read as \<open>undefined\<close>, which arithmetic turns into \<open>NaN\<close>; the model stores \<open>NaN\<close>
  for a hole.
\<close>

type_synonym confusion_matrix = "jsnum list list"

definition empty_matrix :: confusion_matrix where
  "empty_matrix = replicate 3 (replicate 3 (Fin 0))"

text \<open>
  \<open>row[p]++\<close> for an integer \<open>p\<close>: inside the row the cell is incremented; beyond its
  end the row grows up to index \<open>p\<close>, which receives \<open>undefined + 1 = NaN\<close>; a negative
  \<open>p\<close> names a property that is no element, and the elements stay as they are.
\<close>

definition increment_cell :: "jsnum list \<Rightarrow> int \<Rightarrow> jsnum list" where
  "increment_cell row p =
     (if p < 0 then row
      else if nat p < length row then row[nat p := jsadd (row ! nat p) (Fin 1)]
      else row @ replicate (nat p - length row) NaN @ [NaN])"

text \<open>
  The loop of \<open>calculateConfusionMatrix\<close> runs over the indices of \<open>predictions\<close>.
  \<open>matrix[actuals[i]]\<close> is \<open>undefined\<close> when \<open>actuals[i]\<close> is missing or is not a row
  index, and reading \<open>[predictions[i]]\<close> from it throws a TypeError.
\<close>

fun confusion_loop :: "confusion_matrix \<Rightarrow> int list \<Rightarrow> int list \<Rightarrow> error + confusion_matrix" where
  "confusion_loop matrix [] actuals = Inr matrix"
| "confusion_loop matrix (p # ps) [] = Inl TypeError"
| "confusion_loop matrix (p # ps) (a # as) =
     (if 0 \<le> a \<and> nat a < length matrix
      then confusion_loop (matrix[nat a := increment_cell (matrix ! nat a) p]) ps as
      else Inl TypeError)"

definition calculateConfusionMatrix :: "int list \<Rightarrow> int list \<Rightarrow> error + confusion_matrix" where
  "calculateConfusionMatrix predictions actuals = confusion_loop empty_matrix predictions actuals"

definition cell :: "confusion_matrix \<Rightarrow> nat \<Rightarrow> nat \<Rightarrow> jsnum" where
  "cell m i j = (if i < length m \<and> j < length (m ! i) then m ! i ! j else NaN)"

record metrics =
  accuracy :: jsnum
  precision :: jsnum
  recall :: jsnum
  f1Score :: jsnum

record metrics_acc =
  totalCorrect :: jsnum
  totalSamples :: jsnum
  totalPrecision :: jsnum
  totalRecall :: jsnum

text \<open>The inner loop over \<open>j\<close>: false positives, false negatives and the running sample total.\<close>

definition inner_step :: "confusion_matrix \<Rightarrow> nat \<Rightarrow> nat \<Rightarrow> jsnum \<times> jsnum \<times> jsnum \<Rightarrow> jsnum \<times> jsnum \<times> jsnum" where
  "inner_step m i j = (\<lambda>(falsePositive, falseNegative, ts).
     let (fp', fn') = (if j \<noteq> i
            then (jsadd falsePositive (cell m j i), jsadd falseNegative (cell m i j))
            else (falsePositive, falseNegative))
     in (fp', fn', jsadd ts (cell m i j)))"

definition outer_step :: "confusion_matrix \<Rightarrow> nat \<Rightarrow> metrics_acc \<Rightarrow> metrics_acc" where
  "outer_step m i acc =
     (let numClasses = length m;
          truePositive = cell m i i;
          (falsePositive, falseNegative, ts) =
             fold (inner_step m i) [0..<numClasses] (Fin 0, Fin 0, totalSamples acc);
          precision = js_or_zero (jsdiv truePositive (jsadd truePositive falsePositive));
          recall = js_or_zero (jsdiv truePositive (jsadd truePositive falseNegative))
      in \<lparr> totalCorrect = jsadd (totalCorrect acc) truePositive,
           totalSamples = ts,
           totalPrecision = jsadd (totalPrecision acc) precision,
           totalRecall = jsadd (totalRecall acc) recall \<rparr>)"

definition calculateMetrics :: "confusion_matrix \<Rightarrow> metrics" where
  "calculateMetrics confusionMatrix =
     (let numClasses = length confusionMatrix;
          acc = fold (outer_step confusionMatrix) [0..<numClasses]
                  \<lparr> totalCorrect = Fin 0, totalSamples = Fin 0,
                    totalPrecision = Fin 0, totalRecall = Fin 0 \<rparr>;
          accuracy = jsdiv (totalCorrect acc) (totalSamples acc);
          avgPrecision = jsdiv (totalPrecision acc) (Fin (real numClasses));
          avgRecall = jsdiv (totalRecall acc) (Fin (real numClasses));
          f1Score = js_or_zero (jsdiv (jsmul (jsmul (Fin 2) avgPrecision) avgRecall)
                                      (jsadd avgPrecision avgRecall))
      in \<lparr> accuracy = accuracy, precision = avgPrecision, recall = avgRecall,
           f1Score = f1Score \<rparr>)"

section \<open>Calibration and decision (lib/ml-models)\<close>

text \<open>
  The library comes in two versions, which share \<open>normalizeFeatures\<close>,
  \<open>calculateConfusionMatrix\<close> and \<open>calculateMetrics\<close>. \<open>predict\<close> and
  \<open>predictBatch\<close> are modelled from the version with temperature 0.4, the rotation
  and the class targets; the other version scales with temperature 0.8 and neither
  rotates nor boosts.

  The trained classifier is an external collaborator: a function from one normalized
  feature row to its row of raw class probabilities, which are finite numbers.
\<close>

type_synonym classifier = "jsnum list \<Rightarrow> real list"

definition DISEASE_LABELS :: "string list" where
  "DISEASE_LABELS = [''Dengue'', ''Malaria'', ''Leptospirosis'']"

record prediction_result =
  disease :: "string option"
  confidence :: real
  probabilities :: "(string \<times> real option) list"

text \<open>The normalization of one feature row with the stored minima and maxima.\<close>

definition normalize_row :: "normalization \<Rightarrow> jsnum list \<Rightarrow> jsnum list" where
  "normalize_row normalization feats =
     map (rescale (min_col normalization) (max_col normalization)) (zip feats [0..<length feats])"

text \<open>
  Temperature scaling as \<open>predict\<close> and \<open>predictBatch\<close> of this version do it: each
  probability, raised to at least \<open>0.001\<close>, to the power \<open>1 / temperature\<close>, then divided
  by the sum.
\<close>

definition temperature :: real where
  "temperature = 0.4"

definition temperature_scale :: "real list \<Rightarrow> real list" where
  "temperature_scale probs =
     (let scaledProbs = map (\<lambda>p. (max p 0.001) powr (1 / temperature)) probs;
          sum = fold (\<lambda>b a. a + b) scaledProbs 0
      in map (\<lambda>p. p / sum) scaledProbs)"

text \<open>
  The search for the highest probability: \<open>maxProb\<close> starts at 0, an entry replaces
  it only when strictly greater, and an \<open>undefined\<close> entry never does.
\<close>

definition argmax_step :: "nat \<times> real option \<Rightarrow> real \<times> nat \<Rightarrow> real \<times> nat" where
  "argmax_step = (\<lambda>(i, entry) (maxProb, predictedClass).
     case entry of
       None \<Rightarrow> (maxProb, predictedClass)
     | Some x \<Rightarrow> if x > maxProb then (x, i) else (maxProb, predictedClass))"

definition argmax :: "real option list \<Rightarrow> real \<times> nat" where
  "argmax normalizedProbs = fold argmax_step (zip [0..<length normalizedProbs] normalizedProbs) (0, 0)"

definition probabilitiesObj :: "real option list \<Rightarrow> (string \<times> real option) list" where
  "probabilitiesObj normalizedProbs =
     map (\<lambda>i. (DISEASE_LABELS ! i,
               case js_nth normalizedProbs i of None \<Rightarrow> None | Some entry \<Rightarrow> entry))
         [0..<length DISEASE_LABELS]"

text \<open>
  \<open>predict\<close>: the three scaled probabilities are rotated by a random amount before the
  search. The draw count goes from \<open>p\<close> to \<open>p + 1\<close>.
\<close>

definition predict ::
  "classifier \<Rightarrow> jsnum list \<Rightarrow> normalization \<Rightarrow> random_source \<Rightarrow> nat \<Rightarrow> prediction_result" where
  "predict model feats normalization rnd p =
     (let normalizedInput = normalize_row normalization feats;
          probs = model normalizedInput;
          normalizedProbs = temperature_scale probs;
          rotation = rand_int rnd p 3;
          rotatedProbs = map (\<lambda>k. js_nth normalizedProbs ((k + rotation) mod 3)) [0, 1, 2];
          (maxProb, predictedClass) = argmax rotatedProbs
      in \<lparr> disease = js_nth DISEASE_LABELS predictedClass,
           confidence = maxProb,
           probabilities = probabilitiesObj rotatedProbs \<rparr>)"

text \<open>
  \<open>predictBatch\<close>. One pass of its loop: the scaled probabilities of a class are
  multiplied by 3 when its need is the largest and positive, by 2 when its need is
  positive, and by 0.1 otherwise (also where \<open>classNeeds[i]\<close> is \<open>undefined\<close>), and
  normalized again. Only the first three counts are ever read; a predicted class
  beyond them leaves these as they are.
\<close>

definition boost :: "int list \<Rightarrow> real \<times> nat \<Rightarrow> real" where
  "boost classNeeds = (\<lambda>(p, i).
     case js_nth classNeeds i of
       None \<Rightarrow> p * 0.1
     | Some need \<Rightarrow>
         if need = fold max (tl classNeeds) (hd classNeeds) \<and> need > 0 then p * (1 + 2.0)
         else if need > 0 then p * (1 + 2.0 * 0.5)
         else p * 0.1)"

definition batch_step :: "int list \<Rightarrow> int list \<Rightarrow> real list \<Rightarrow> prediction_result \<times> int list" where
  "batch_step classTargets classCounts probs =
     (let normalizedProbs = temperature_scale probs;
          classNeeds = map (\<lambda>(target, i). target - classCounts ! i)
                         (zip classTargets [0..<length classTargets]);
          boosted = map (boost classNeeds) (zip normalizedProbs [0..<length normalizedProbs]);
          newSum = fold (\<lambda>b a. a + b) boosted 0;
          normalizedProbs' = map (\<lambda>p. Some (p / newSum)) boosted;
          (maxProb, predictedClass) = argmax normalizedProbs'
      in (\<lparr> disease = js_nth DISEASE_LABELS predictedClass,
             confidence = max 0.6 maxProb,
             probabilities = probabilitiesObj normalizedProbs' \<rparr>,
          if predictedClass < length classCounts
          then classCounts[predictedClass := classCounts ! predictedClass + 1]
          else classCounts))"

fun batch_loop :: "int list \<Rightarrow> int list \<Rightarrow> real list list \<Rightarrow> prediction_result list" where
  "batch_loop classTargets classCounts [] = []"
| "batch_loop classTargets classCounts (probs # rest) =
     (let (result, classCounts') = batch_step classTargets classCounts probs
      in result # batch_loop classTargets classCounts' rest)"

definition predictBatch ::
  "classifier \<Rightarrow> jsnum list list \<Rightarrow> normalization \<Rightarrow> prediction_result list" where
  "predictBatch model featuresArray normalization =
     (let normalizedRows = map (normalize_row normalization) featuresArray;
          probabilitiesArray = map model normalizedRows;
          totalSamples = length probabilitiesArray;
          targetPerClass = int (totalSamples div 3);
          remainder = totalSamples mod 3;
          classTargets = map (\<lambda>i. if i < remainder then targetPerClass + 1 else targetPerClass)
                             [0, 1, 2]
      in batch_loop classTargets [0, 0, 0] probabilitiesArray)"

section \<open>Batch processing (the page's handleBatchProcess)\<close>

datatype batch_error = ParseError error | NoValidData | ThrownTypeError

record batch_row =
  row_id :: nat
  predicted :: "string option"
  actual :: "string option"
  row_confidence :: real

record batch_result =
  totalRecords :: nat
  predictions :: "batch_row list"
  confusionMatrix :: "confusion_matrix option"

text \<open>
  The actual labels: the trimmed diagnosis cell of each row that the filter of
  \<open>convertToTrainingData\<close> keeps, when there is a diagnosis column inside the row.
\<close>

definition actual_labels :: "string list \<Rightarrow> string list list \<Rightarrow> string list" where
  "actual_labels headers rows =
     (case findIndex (\<lambda>h. toLowerCase h = ''diagnosis'') headers of
        None \<Rightarrow> []
      | Some diagnosisIdx \<Rightarrow>
          concat (map (\<lambda>row. if skip_row headers row then []
                              else if diagnosisIdx < length row then [trim (row ! diagnosisIdx)]
                              else [])
                      rows))"

text \<open>The balanced class list before it is shuffled.\<close>

definition balanced_classes :: "nat \<Rightarrow> string list" where
  "balanced_classes totalPredictions =
     (let predictionsPerClass = totalPredictions div 3;
          remainder = totalPredictions mod 3
      in concat (map (\<lambda>i. replicate (predictionsPerClass + (if i < remainder then 1 else 0))
                                   (DISEASE_LABELS ! i))
                     [0, 1, 2]))"

text \<open>
  The rows shown for the batch: \<open>balancedClasses[idx] || pred.disease\<close> (the empty
  string and \<open>undefined\<close> are falsy), \<open>actualLabels[idx] || undefined\<close>, and the
  confidence raised to at least 0.65.
\<close>

definition falsy_string :: "string option \<Rightarrow> bool" where
  "falsy_string s = (s = None \<or> s = Some [])"

definition batch_rows ::
  "string list \<Rightarrow> string list \<Rightarrow> prediction_result list \<Rightarrow> batch_row list" where
  "batch_rows balancedClasses actualLabels batchPredictions =
     map (\<lambda>(pred, idx).
            \<lparr> row_id = idx + 1,
              predicted = (if falsy_string (js_nth balancedClasses idx) then disease pred
                           else js_nth balancedClasses idx),
              actual = (if falsy_string (js_nth actualLabels idx) then None
                        else js_nth actualLabels idx),
              row_confidence = max 0.65 (confidence pred) \<rparr>)
         (zip batchPredictions [0..<length batchPredictions])"

definition batchDiseaseMap :: "(string \<times> int) list" where
  "batchDiseaseMap =
     [(''Dengue'', 0), (''dengue'', 0), (''DENGUE'', 0), (''1'', 0),
      (''Malaria'', 1), (''malaria'', 1), (''MALARIA'', 1), (''2'', 1),
      (''Leptospirosis'', 2), (''leptospirosis'', 2), (''LEPTOSPIROSIS'', 2), (''3'', 2)]"

text \<open>\<open>convertedLabels\<close>: what the table gives for the trimmed label, or \<open>-1\<close>.\<close>

definition convert_label :: "string \<Rightarrow> int js_value" where
  "convert_label label =
     (case object_get batchDiseaseMap (trim label) of None \<Rightarrow> Val (- 1) | Some mapped \<Rightarrow> mapped)"

text \<open>
  The accumulation loop over the batch rows. A pair is counted unless its actual
  index is \<open>-1\<close> or the predicted label is not in the table. \<open>confusionMatrix[actualIdx]\<close>
  is \<open>undefined\<close> when \<open>actualIdx\<close> is no row index (a missing entry of
  \<open>convertedLabels\<close>, or an inherited member of the table), and reading a cell from it
  throws a TypeError; a predicted index that is an inherited member names a property
  that is no element.
\<close>

definition batch_confusion_step ::
  "confusion_matrix \<Rightarrow> string option \<Rightarrow> int js_value option \<Rightarrow> batch_error + confusion_matrix" where
  "batch_confusion_step matrix predictedLabel actualIdx =
     (let predictedIdx = (case predictedLabel of
                            None \<Rightarrow> None
                          | Some l \<Rightarrow> object_get batchDiseaseMap l)
      in if actualIdx \<noteq> Some (Val (- 1)) \<and> predictedIdx \<noteq> None then
           (case actualIdx of
              Some (Val a) \<Rightarrow>
                if 0 \<le> a \<and> nat a < length matrix then
                  (case predictedIdx of
                     Some (Val predIdx) \<Rightarrow>
                       Inr (matrix[nat a := increment_cell (matrix ! nat a) predIdx])
                   | _ \<Rightarrow> Inr matrix)
                else Inl ThrownTypeError
            | _ \<Rightarrow> Inl ThrownTypeError)
         else Inr matrix)"

fun batch_confusion_loop ::
  "confusion_matrix \<Rightarrow> string option list \<Rightarrow> int js_value list \<Rightarrow> batch_error + confusion_matrix" where
  "batch_confusion_loop matrix [] convertedLabels = Inr matrix"
| "batch_confusion_loop matrix (predictedLabel # rest) convertedLabels =
     (case batch_confusion_step matrix predictedLabel
             (case convertedLabels of [] \<Rightarrow> None | c # _ \<Rightarrow> Some c) of
        Inl e \<Rightarrow> Inl e
      | Inr matrix' \<Rightarrow> batch_confusion_loop matrix' rest (tl convertedLabels))"

definition batch_confusion :: "batch_row list \<Rightarrow> string list \<Rightarrow> batch_error + confusion_matrix" where
  "batch_confusion preds actualLabels =
     batch_confusion_loop empty_matrix (map predicted preds) (map convert_label actualLabels)"

text \<open>
  The predictions of a batch from the encoded rows, and the handler, from the text of
  the chosen delimited-text file to the batch result; an exception
  inside it is caught and shown as the batch error. The metrics it then derives from
  the matrix and adjusts are left out of the result.
\<close>

definition batch_predictions ::
  "classifier \<Rightarrow> normalization \<Rightarrow> random_source \<Rightarrow> string list \<Rightarrow> jsnum list list
     \<Rightarrow> batch_row list" where
  "batch_predictions trainedModel normalizationParams rnd actualLabels feats =
     (let batchPredictions = predictBatch trainedModel feats normalizationParams;
          (balancedClasses, p) = shuffle rnd 0 (balanced_classes (length batchPredictions))
      in batch_rows balancedClasses actualLabels batchPredictions)"

definition handleBatchProcess ::
  "classifier \<Rightarrow> normalization \<Rightarrow> random_source \<Rightarrow> string \<Rightarrow> batch_error + batch_result" where
  "handleBatchProcess trainedModel normalizationParams rnd fileContent =
     (case parseCSV fileContent of
        Inl e \<Rightarrow> Inl (ParseError e)
      | Inr (headers, rows) \<Rightarrow>
          (let actualLabels = actual_labels headers rows
           in case convertToTrainingData headers rows of
                Inl e \<Rightarrow> Inl (ParseError e)
              | Inr converted \<Rightarrow>
                  if rowCount converted = 0 then Inl NoValidData
                  else
                    (let preds = batch_predictions trainedModel normalizationParams rnd
                                   actualLabels (features converted);
                         hasValidLabels =
                           (length actualLabels > 0 \<and>
                            list_all (\<lambda>label. label \<noteq> [] \<and> trim label \<noteq> []) actualLabels)
                     in if hasValidLabels then
                          (case batch_confusion preds actualLabels of
                             Inl e \<Rightarrow> Inl e
                           | Inr m \<Rightarrow>
                               Inr \<lparr> totalRecords = length (features converted),
                                     predictions = preds, confusionMatrix = Some m \<rparr>)
                        else
                          Inr \<lparr> totalRecords = length (features converted),
                                predictions = preds, confusionMatrix = None \<rparr>)))"

text \<open>The sum of the nine cells of a matrix with three rows of three finite numbers.\<close>

definition cell_sum :: "confusion_matrix \<Rightarrow> jsnum" where
  "cell_sum m = fold (\<lambda>row acc. fold (\<lambda>c a. jsadd a c) (take 3 row) acc) (take 3 m) (Fin 0)"

section \<open>Auxiliary notions for the statements\<close>

text \<open>Characters in front of the first piece of a split.\<close>

definition prepend :: "string \<Rightarrow> string list \<Rightarrow> string list" where
  "prepend p ls = foldr push_char p ls"

text \<open>The non-blank ones of some lines, each trimmed.\<close>

definition trimmed_nonblank :: "string list \<Rightarrow> string list" where
  "trimmed_nonblank ls = map trim (filter (\<lambda>line. length (trim line) > 0) ls)"

text \<open>The rows that the filter of \<open>convertToTrainingData\<close> lets through.\<close>

definition kept_rows :: "string list \<Rightarrow> string list list \<Rightarrow> string list list" where
  "kept_rows headers rows = filter (\<lambda>row. \<not> skip_row headers row) rows"

text \<open>
  The encoder as the specification words it, for comparison with \<open>encode_feature\<close>:
  schema field \<open>k\<close> of a row is 0 when no header names it, 1 or 0 for the two
  categorical fields, and otherwise the parsed number, or 0 when the cell does not
  parse.
\<close>

definition spec_encode :: "string list \<Rightarrow> string list \<Rightarrow> nat \<Rightarrow> jsnum" where
  "spec_encode headers row k =
     (case column_index headers (featureColumns ! k) of
        None \<Rightarrow> Fin 0
      | Some i \<Rightarrow>
          (let v = row ! i; columnName = toLowerCase (featureColumns ! k)
           in if columnName = ''gender'' then (if toLowerCase v = ''m'' then Fin 1 else Fin 0)
              else if columnName = ''residence''
                then (if toLowerCase v = ''urban'' \<or> toLowerCase v = ''urbana''
                      then Fin 1 else Fin 0)
              else (if parseFloat v = NaN then Fin 0 else parseFloat v)))"

text \<open>
  A feature matrix all of whose entries are finite, and the values of column \<open>i\<close> of
  such a matrix when its rows have more than \<open>i\<close> entries.
\<close>

definition finite_features :: "real list list \<Rightarrow> jsnum list list" where
  "finite_features R = map (map Fin) R"

definition column_values :: "real list list \<Rightarrow> nat \<Rightarrow> real set" where
  "column_values feats i = (\<lambda>row. row ! i) ` set feats"

text \<open>
  The double \<open>2 ^ 1023\<close>: it is finite, and the sum of it with itself is not.
\<close>

definition huge :: real where
  "huge = 2 ^ 1023"

text \<open>
  The rescaling as the specification words it: \<open>(v - min) / (max - min)\<close> with the
  minimum and maximum of the column, and 0 for a column whose maximum is its minimum.
\<close>

definition spec_rescale :: "real list list \<Rightarrow> nat \<Rightarrow> real \<Rightarrow> real" where
  "spec_rescale feats i v =
     (let lo = Min (column_values feats i); hi = Max (column_values feats i)
      in if hi = lo then 0 else (v - lo) / (hi - lo))"

text \<open>
  The calibration scenario: a classifier that answers \<open>[0.4, 0.35, 0.25]\<close>, no
  normalization data, a random source that always gives \<open>1 / 2\<close>, and the three
  probabilities after the power \<open>1 / 0.4 = 5 / 2\<close>.
\<close>

definition scenario_model :: classifier where
  "scenario_model = (\<lambda>_. [0.4, 0.35, 0.25])"

definition no_normalization :: normalization where
  "no_normalization = \<lparr> min_col = [], max_col = [] \<rparr>"

definition always_half :: random_source where
  "always_half = (\<lambda>_. half)"

definition scenario_a :: real where "scenario_a = (2 / 5) powr (5 / 2)"
definition scenario_b :: real where "scenario_b = (7 / 20) powr (5 / 2)"
definition scenario_c :: real where "scenario_c = (1 / 4) powr (5 / 2)"

definition scenario_confidence :: real where
  "scenario_confidence = scenario_a / (scenario_a + scenario_b + scenario_c)"

text \<open>The class that one pass of the record loop settles on.\<close>

definition chosen_class :: "random_source \<Rightarrow> nat \<Rightarrow> nat option \<Rightarrow> nat" where
  "chosen_class rnd p planned =
     (case planned of
        Some d \<Rightarrow> if d \<noteq> 0 then d else rand_int rnd p 3
      | None \<Rightarrow> rand_int rnd p 3)"

text \<open>A second classifier, which always favours the third class.\<close>

definition other_model :: classifier where
  "other_model = (\<lambda>_. [0.1, 0.1, 0.8])"

text \<open>
  A matrix of finite numbers as a confusion matrix, the property of having three rows
  of three cells, the sum of all cells, and the converted labels that are row indices.
\<close>

definition fin_matrix :: "real list list \<Rightarrow> confusion_matrix" where
  "fin_matrix M = map (map Fin) M"

definition square3 :: "real list list \<Rightarrow> bool" where
  "square3 M = (length M = 3 \<and> list_all (\<lambda>row. length row = 3) M)"

definition matrix_total :: "real list list \<Rightarrow> real" where
  "matrix_total M = sum_list (map sum_list M)"

definition resolved :: "int js_value \<Rightarrow> bool" where
  "resolved c = (c = Val 0 \<or> c = Val 1 \<or> c = Val 2)"


section \<open>Metrics of the empty confusion matrix\<close>

text \<open>
  C3. The claim: the metrics of the confusion matrix built from empty predicted and
  actual sequences involve no division by zero and are all 0. The code builds the
  all-zero matrix, guards precision, recall and F1 with \<open>|| 0\<close>, and divides
  \<open>totalCorrect\<close> by \<open>totalSamples\<close> unguarded: the accuracy is \<open>0 / 0 = NaN\<close>.
\<close>

theorem calculateMetrics_empty_accuracy_NaN:
  "calculateConfusionMatrix [] [] = Inr empty_matrix \<and>
   empty_matrix = [[Fin 0, Fin 0, Fin 0], [Fin 0, Fin 0, Fin 0], [Fin 0, Fin 0, Fin 0]] \<and>
   calculateMetrics empty_matrix =
     \<lparr> accuracy = NaN, precision = Fin 0, recall = Fin 0, f1Score = Fin 0 \<rparr>"
  by (simp add: calculateConfusionMatrix_def empty_matrix_def calculateMetrics_def
        outer_step_def inner_step_def cell_def upt_rec_numeral Let_def numeral_3_eq_3)

section \<open>Properties of the tabular parser\<close>

lemma is_space_not_comma: "is_space c \<Longrightarrow> c \<noteq> comma"
  by (auto simp: is_space_def comma_def)

lemma is_space_CR: "is_space CR"
  by (simp add: is_space_def CR_def)


lemma trim_Nil: "trim [] = []"
  by (simp add: trim_def)

lemma trim_Cons_space: "is_space c \<Longrightarrow> trim (c # l) = trim l"
  by (simp add: trim_def)

lemma trim_snoc_space: "is_space c \<Longrightarrow> trim (l @ [c]) = trim l"
proof (cases "\<forall>x\<in>set l. is_space x")
  case True
  assume c: "is_space c"
  from True have a: "dropWhile is_space l = []" by simp
  from True c have b: "dropWhile is_space (l @ [c]) = []" by simp
  show ?thesis unfolding trim_def a b by simp
next
  case False
  assume c: "is_space c"
  from False have "dropWhile is_space (l @ [c]) = dropWhile is_space l @ [c]"
    by (auto simp: dropWhile_append1)
  with c show ?thesis by (simp add: trim_def)
qed

lemma prepend_Nil: "prepend [] ls = ls"
  by (simp add: prepend_def)

lemma prepend_push: "prepend p (push_char c ls) = prepend (p @ [c]) ls"
  by (simp add: prepend_def)

lemma prepend_Cons: "prepend p (l # ls) = (p @ l) # ls"
  by (induction p arbitrary: l) (auto simp: prepend_def push_char_def)

lemma split_lines_ne: "split_lines s \<noteq> []"
  by (induction s) (auto simp: push_char_def split: list.splits)

lemma split_on_ne: "split_on d s \<noteq> []"
  by (induction s) (auto simp: push_char_def split: list.splits)

subsection \<open>Trimming the text does not change its non-blank lines, up to trimming\<close>

lemma lines_leading_space:
  "is_space c \<Longrightarrow> trimmed_nonblank (split_lines (c # cs)) = trimmed_nonblank (split_lines cs)"
  using split_lines_ne[of cs]
  by (cases "split_lines cs")
     (auto simp: trimmed_nonblank_def trim_Cons_space trim_Nil push_char_def)

lemma lines_trailing_space:
  "is_space c \<Longrightarrow>
   trimmed_nonblank (prepend p (split_lines (cs @ [c]))) =
   trimmed_nonblank (prepend p (split_lines cs))"
proof (induction cs arbitrary: p)
  case Nil
  then show ?case
    by (auto simp: trimmed_nonblank_def prepend_Cons push_char_def trim_snoc_space trim_Nil)
next
  case (Cons x xs)
  show ?case
  proof (cases "x = LF")
    case True
    with Cons.IH[OF Cons.prems, of "[]"] show ?thesis
      by (simp add: prepend_Cons prepend_Nil trimmed_nonblank_def)
  next
    case False
    show ?thesis
    proof (cases "xs = []")
      case True
      with False Cons.prems trim_snoc_space[of c "p @ [x]"] trim_snoc_space[of CR p]
      show ?thesis
        by (auto simp: trimmed_nonblank_def prepend_Cons push_char_def trim_Nil is_space_CR)
    next
      case ne: False
      then have tk: "take 1 (xs @ [c]) = take 1 xs" by (cases xs) auto
      show ?thesis
      proof (cases "x = CR \<and> take 1 xs = [LF]")
        case True
        with False tk Cons.IH[OF Cons.prems, of p] show ?thesis by simp
      next
        case F2: False
        with False tk Cons.IH[OF Cons.prems, of "p @ [x]"] show ?thesis
          by (auto simp: prepend_push)
      qed
    qed
  qed
qed

lemma lines_dropWhile:
  "trimmed_nonblank (split_lines (dropWhile is_space s)) = trimmed_nonblank (split_lines s)"
  by (induction s) (auto simp: lines_leading_space simp del: split_lines.simps)

lemma lines_rtrim:
  "trimmed_nonblank (split_lines (rev (dropWhile is_space t))) =
   trimmed_nonblank (split_lines (rev t))"
proof (induction t)
  case Nil
  then show ?case by simp
next
  case (Cons c t)
  show ?case
  proof (cases "is_space c")
    case True
    with Cons lines_trailing_space[OF True, of "[]" "rev t"] show ?thesis
      by (simp add: prepend_Nil)
  next
    case False
    then show ?thesis by simp
  qed
qed

lemma lines_trim: "trimmed_nonblank (split_lines (trim s)) = trimmed_nonblank (split_lines s)"
  using lines_rtrim[of "rev (dropWhile is_space s)"] lines_dropWhile[of s]
  by (simp add: trim_def)

lemma csv_lines_trimmed: "map trim (csv_lines content) = map trim (nonblank_lines content)"
  using lines_trim[of content]
  by (simp add: csv_lines_def nonblank_lines_def trimmed_nonblank_def)

subsection \<open>The trimmed fields of a line depend on the trimmed line only\<close>

lemma fields_leading_space:
  "is_space c \<Longrightarrow> map trim (split_on comma (c # l)) = map trim (split_on comma l)"
  using split_on_ne[of comma l]
  by (cases "split_on comma l") (auto simp: is_space_not_comma push_char_def trim_Cons_space)

lemma fields_trailing_space:
  "is_space c \<Longrightarrow>
   map trim (prepend p (split_on comma (l @ [c]))) = map trim (prepend p (split_on comma l))"
proof (induction l arbitrary: p)
  case Nil
  then show ?case
    by (auto simp: is_space_not_comma prepend_Cons push_char_def trim_snoc_space)
next
  case (Cons x xs)
  show ?case
  proof (cases "x = comma")
    case True
    with Cons.IH[OF Cons.prems, of "[]"] show ?thesis by (simp add: prepend_Cons prepend_Nil)
  next
    case False
    with Cons.IH[OF Cons.prems, of "p @ [x]"] show ?thesis by (simp add: prepend_push)
  qed
qed

lemma fields_dropWhile:
  "map trim (split_on comma (dropWhile is_space l)) = map trim (split_on comma l)"
  by (induction l) (auto simp: fields_leading_space simp del: split_on.simps)

lemma fields_rtrim:
  "map trim (split_on comma (rev (dropWhile is_space t))) = map trim (split_on comma (rev t))"
proof (induction t)
  case Nil
  then show ?case by simp
next
  case (Cons c t)
  show ?case
  proof (cases "is_space c")
    case True
    with Cons fields_trailing_space[OF True, of "[]" "rev t"] show ?thesis
      by (simp add: prepend_Nil)
  next
    case False
    then show ?thesis by simp
  qed
qed

lemma fields_trim: "map trim (split_on comma (trim l)) = map trim (split_on comma l)"
  using fields_rtrim[of "rev (dropWhile is_space l)"] fields_dropWhile[of l]
  by (simp add: trim_def)

lemma fields_of_trimmed:
  assumes "trim a = trim b"
  shows "map trim (split_on comma a) = map trim (split_on comma b)"
  using fields_trim[of a] fields_trim[of b] assms by simp

text \<open>
  C8. \<open>parseCSV\<close> fails, with the malformed-input error and no other, exactly when
  the text has fewer than two non-blank lines. Otherwise it returns the trimmed
  comma-separated fields of the first non-blank line as headers and one row for each
  further non-blank line; the lines it reads are those of the trimmed text, which
  are the non-blank lines of the text up to white space around them.
\<close>

theorem parseCSV_malformed_iff:
  "(parseCSV content = Inl MalformedInput \<longleftrightarrow> length (nonblank_lines content) < 2) \<and>
   (\<forall>e. parseCSV content = Inl e \<longrightarrow> e = MalformedInput) \<and>
   (2 \<le> length (nonblank_lines content) \<longrightarrow>
      parseCSV content =
        Inr (map trim (split_on comma (hd (nonblank_lines content))),
             map parse_row (tl (csv_lines content))) \<and>
      length (tl (csv_lines content)) = length (tl (nonblank_lines content)) \<and>
      map trim (csv_lines content) = map trim (nonblank_lines content))"
proof -
  have eq: "map trim (csv_lines content) = map trim (nonblank_lines content)"
    by (rule csv_lines_trimmed)
  then have len: "length (csv_lines content) = length (nonblank_lines content)"
    by (rule map_eq_imp_length_eq)
  have hd: "map trim (split_on comma (hd (csv_lines content))) =
            map trim (split_on comma (hd (nonblank_lines content)))"
    if "2 \<le> length (nonblank_lines content)"
  proof (rule fields_of_trimmed)
    from that len have "csv_lines content \<noteq> []" "nonblank_lines content \<noteq> []" by auto
    with eq show "trim (hd (csv_lines content)) = trim (hd (nonblank_lines content))"
      by (metis hd_map)
  qed
  show ?thesis
    using len hd eq by (auto simp: parseCSV_def Let_def drop_Suc)
qed

theorem parseCSV_malformed_iff_witness:
  "length (nonblank_lines ''age,gender'') < 2 \<and>
   parseCSV ''age,gender'' = Inl MalformedInput \<and>
   2 \<le> length (nonblank_lines '' age , gender\<newline>\<newline>30,M \<newline>'') \<and>
   parseCSV '' age , gender\<newline>\<newline>30,M \<newline>'' = Inr ([''age'', ''gender''], [[''30'', ''M'']])"
proof -
  have a: "length (nonblank_lines ''age,gender'') < 2"
    by code_simp
  have b: "2 \<le> length (nonblank_lines '' age , gender\<newline>\<newline>30,M \<newline>'')"
    by code_simp
  have c: "(map trim (split_on comma (hd (nonblank_lines '' age , gender\<newline>\<newline>30,M \<newline>''))),
            map parse_row (tl (csv_lines '' age , gender\<newline>\<newline>30,M \<newline>''))) =
           ([''age'', ''gender''], [[''30'', ''M'']])"
    by code_simp
  from a b c parseCSV_malformed_iff[of "''age,gender''"]
    parseCSV_malformed_iff[of "'' age , gender\<newline>\<newline>30,M \<newline>''"]
  show ?thesis by simp
qed

subsection \<open>Rows without quotes\<close>







subsection \<open>A comma at either end of a line gives no cell\<close>








section \<open>Properties of the feature encoder\<close>

lemma findIndex_less: "findIndex P xs = Some i \<Longrightarrow> i < length xs"
  by (induction xs arbitrary: i) (auto split: if_splits)

lemma column_index_less: "column_index headers c = Some i \<Longrightarrow> i < length headers"
  unfolding column_index_def by (rule findIndex_less)

lemma length_featureColumns: "length featureColumns = 53"
  by (simp add: featureColumns_def)

lemma encode_feature_in_range:
  assumes "\<And>i. column_index headers (featureColumns ! k) = Some i \<Longrightarrow> i < length row"
  shows "encode_feature row (column_index headers (featureColumns ! k), k) =
         Inr (spec_encode headers row k)"
  using assms
  by (cases "column_index headers (featureColumns ! k)")
     (auto simp: encode_feature_def spec_encode_def js_nth_def Let_def)

lemma spec_encode_not_NaN: "spec_encode headers row k \<noteq> NaN"
  by (auto simp: spec_encode_def Let_def split: option.splits)

lemma collect_map:
  "(\<And>x. x \<in> set xs \<Longrightarrow> f x = Inr (g x)) \<Longrightarrow> collect (map f xs) = Inr (map g xs)"
  by (induction xs) auto

lemma zip_indices: "zip xs [0..<length xs] = map (\<lambda>k. (xs ! k, k)) [0..<length xs]"
  by (rule nth_equalityI) auto

lemma featureRow_total:
  assumes "length headers \<le> length row"
  shows "featureRow (map (column_index headers) featureColumns) row =
         Inr (map (spec_encode headers row) [0..<53])"
proof -
  have "collect (map (\<lambda>k. encode_feature row (column_index headers (featureColumns ! k), k))
                  [0..<53]) = Inr (map (spec_encode headers row) [0..<53])"
  proof (rule collect_map)
    fix k :: nat
    show "encode_feature row (column_index headers (featureColumns ! k), k) =
          Inr (spec_encode headers row k)"
      using assms by (intro encode_feature_in_range) (auto dest: column_index_less)
  qed
  moreover have "map (encode_feature row)
        (zip (map (column_index headers) featureColumns) [0..<53]) =
      map (\<lambda>k. encode_feature row (column_index headers (featureColumns ! k), k)) [0..<53]"
    using zip_indices[of "map (column_index headers) featureColumns"]
    by (simp add: length_featureColumns)
  ultimately show ?thesis
    by (simp add: featureRow_def length_featureColumns)
qed

lemma convert_rows_total:
  "convert_rows headers (map (column_index headers) featureColumns) li rows =
     Inr (map (\<lambda>row. map (spec_encode headers row) [0..<53]) (kept_rows headers rows),
          (case li of None \<Rightarrow> [] | Some l \<Rightarrow> map (row_label l) (kept_rows headers rows)))"
proof (induction rows)
  case Nil
  then show ?case by (simp add: kept_rows_def split: option.splits)
next
  case (Cons row rows)
  show ?case
  proof (cases "skip_row headers row")
    case True
    with Cons show ?thesis by (simp add: kept_rows_def split: option.splits)
  next
    case False
    then have "length headers \<le> length row" by (simp add: skip_row_def)
    from featureRow_total[OF this] False Cons show ?thesis
      by (simp add: kept_rows_def split: option.splits)
  qed
qed

lemma convertToTrainingData_total:
  "convertToTrainingData headers rows =
     Inr \<lparr> features = map (\<lambda>row. map (spec_encode headers row) [0..<53]) (kept_rows headers rows),
           labels = (case column_index headers labelColumn of None \<Rightarrow> []
                     | Some l \<Rightarrow> map (row_label l) (kept_rows headers rows)),
           hasLabels = (column_index headers labelColumn \<noteq> None),
           rowCount = length (kept_rows headers rows) \<rparr>"
  by (simp add: convertToTrainingData_def Let_def convert_rows_total)

text \<open>
  C5. For all headers and rows, \<open>convertToTrainingData\<close> returns (it never throws);
  \<open>rowCount\<close> is the number of feature vectors, one for each row the filter keeps;
  every feature vector has 53 entries, none of them \<open>NaN\<close>, entry \<open>k\<close> being what the
  specification says of schema field \<open>k\<close>, in particular 0 where no header names the
  field; and with a diagnosis column there are as many labels as feature vectors
  (without one there are no labels).
\<close>

theorem convertToTrainingData_shape:
  "\<exists>r. convertToTrainingData headers rows = Inr r \<and>
       rowCount r = length (features r) \<and>
       features r = map (\<lambda>row. map (spec_encode headers row) [0..<53]) (kept_rows headers rows) \<and>
       (\<forall>f \<in> set (features r). length f = 53 \<and> NaN \<notin> set f) \<and>
       (\<forall>f \<in> set (features r). \<forall>k < 53.
           column_index headers (featureColumns ! k) = None \<longrightarrow> f ! k = Fin 0) \<and>
       hasLabels r = (column_index headers labelColumn \<noteq> None) \<and>
       (hasLabels r \<longrightarrow> length (labels r) = length (features r)) \<and>
       (\<not> hasLabels r \<longrightarrow> labels r = [])"
proof -
  let ?fs = "map (\<lambda>row. map (spec_encode headers row) [0..<53]) (kept_rows headers rows)"
  have len: "\<forall>f \<in> set ?fs. length f = 53 \<and> NaN \<notin> set f"
    using spec_encode_not_NaN[symmetric] by (auto simp: spec_encode_not_NaN)
  have zero: "\<forall>f \<in> set ?fs. \<forall>k < 53.
      column_index headers (featureColumns ! k) = None \<longrightarrow> f ! k = Fin 0"
    by (auto simp: spec_encode_def)
  show ?thesis
    unfolding convertToTrainingData_total
    using len zero by (auto split: option.splits)
qed

theorem convertToTrainingData_shape_witness:
  "\<exists>r. convertToTrainingData [''age'', ''gender'', ''diagnosis'']
          [[''30'', ''M'', ''dengue''], [''40''], [[], [], []], [''x'', ''F'', ''other'']] = Inr r \<and>
       hasLabels r \<and> length (labels r) = length (features r) \<and> rowCount r = 2 \<and>
       (\<forall>f \<in> set (features r). length f = 53 \<and> f ! 2 = Fin 0)"
proof -
  let ?H = "[''age'', ''gender'', ''diagnosis'']"
  let ?R = "[[''30'', ''M'', ''dengue''], [''40''], [[], [], []], [''x'', ''F'', ''other'']]"
  have h: "column_index ?H labelColumn \<noteq> None"
    by code_simp
  have c: "column_index ?H (featureColumns ! 2) = None"
    by code_simp
  have k: "length (kept_rows ?H ?R) = 2"
    by code_simp
  from convertToTrainingData_shape[of ?H ?R] obtain r where
    r: "convertToTrainingData ?H ?R = Inr r"
      "rowCount r = length (features r)"
      "features r = map (\<lambda>row. map (spec_encode ?H row) [0..<53]) (kept_rows ?H ?R)"
      "\<forall>f \<in> set (features r). length f = 53 \<and> NaN \<notin> set f"
      "\<forall>f \<in> set (features r). \<forall>k < 53.
           column_index ?H (featureColumns ! k) = None \<longrightarrow> f ! k = Fin 0"
      "hasLabels r = (column_index ?H labelColumn \<noteq> None)"
      "hasLabels r \<longrightarrow> length (labels r) = length (features r)"
    by blast
  from r(2,3) k have "rowCount r = 2" by simp
  moreover from r(5) c have "\<forall>f \<in> set (features r). f ! 2 = Fin 0" by auto
  ultimately show ?thesis using r(1,4,6,7) h by auto
qed

text \<open>
  C9. The scenario text parses to the three headers and two data rows, and encoding
  them gives two feature vectors, whose gender entries (position 1 of the schema) are
  1 and 0, and the labels 0 and 1.
\<close>

theorem scenario_parse_and_encode:
  "parseCSV ''age,gender,diagnosis\<newline>30,M,dengue\<newline>40,F,malaria\<newline>'' =
     Inr ([''age'', ''gender'', ''diagnosis''],
          [[''30'', ''M'', ''dengue''], [''40'', ''F'', ''malaria'']]) \<and>
   featureColumns ! 1 = ''gender'' \<and>
   convertToTrainingData [''age'', ''gender'', ''diagnosis'']
       [[''30'', ''M'', ''dengue''], [''40'', ''F'', ''malaria'']] =
     Inr \<lparr> features = [Fin 30 # Fin 1 # replicate 51 (Fin 0),
                        Fin 40 # Fin 0 # replicate 51 (Fin 0)],
           labels = [Val 0, Val 1], hasLabels = True, rowCount = 2 \<rparr>"
  by code_simp



section \<open>Properties of the normalizer\<close>

subsection \<open>The overflow bound\<close>

lemma overflow_bound_factor: "overflow_bound = 2 ^ 970 * (2 ^ 54 - 1)"
proof -
  have "(2::real) ^ 1024 = 2 ^ 970 * 2 ^ 54"
    by (simp only: power_add[symmetric]) simp
  then show ?thesis
    by (simp only: overflow_bound_def right_diff_distrib mult_1_right)
qed

lemma overflow_bound_large: "2 ^ 54 - 1 \<le> overflow_bound"
proof -
  have "(1::real) \<le> 2 ^ 970" by (rule one_le_power) simp
  moreover have "(0::real) \<le> 2 ^ 54 - 1" by simp
  ultimately have "1 * (2 ^ 54 - 1) \<le> (2::real) ^ 970 * (2 ^ 54 - 1)"
    by (rule mult_right_mono)
  then show ?thesis by (simp only: overflow_bound_factor mult_1)
qed

lemma overflow_bound_gt: "2 < overflow_bound"
  using overflow_bound_large by simp

lemma fl_small: "\<bar>r\<bar> < overflow_bound \<Longrightarrow> fl r = Fin r"
  by (simp add: fl_def)

lemma fl_unit: "0 \<le> r \<Longrightarrow> r \<le> 1 \<Longrightarrow> fl r = Fin r"
  using overflow_bound_gt by (intro fl_small) simp


lemma huge_pos: "0 < huge"
  by (simp add: huge_def)

lemma huge_double: "huge + huge = 2 ^ 1024"
  by (simp add: huge_def)

lemma huge_overflows: "overflow_bound \<le> huge + huge"
  unfolding huge_double overflow_bound_def by simp

lemma huge_finite: "huge < overflow_bound"
proof -
  have "(2::real) ^ 1023 = 2 ^ 970 * 2 ^ 53"
    by (simp only: power_add[symmetric]) simp
  moreover have "(2::real) ^ 970 * 2 ^ 53 < 2 ^ 970 * (2 ^ 54 - 1)"
    by (rule mult_strict_left_mono) simp_all
  ultimately show ?thesis
    by (simp only: huge_def overflow_bound_factor)
qed

subsection \<open>The minimum and maximum of a column of finite numbers\<close>

lemma fold_js_min_fin:
  "fold (\<lambda>arg acc. js_min acc (to_number arg)) (map (\<lambda>x. Some (Fin (g x))) xs) (Fin m) =
   Fin (fold min (map g xs) m)"
  by (induction xs arbitrary: m) (simp_all add: to_number_def min.commute)

lemma fold_js_max_fin:
  "fold (\<lambda>arg acc. js_max acc (to_number arg)) (map (\<lambda>x. Some (Fin (g x))) xs) (Fin m) =
   Fin (fold max (map g xs) m)"
  by (induction xs arbitrary: m) (simp_all add: to_number_def max.commute)

lemma column_full:
  assumes "\<forall>row \<in> set R. i < length row"
  shows "map (\<lambda>row. js_nth row i) (finite_features R) = map (\<lambda>x. Some (Fin x)) (map (\<lambda>row. row ! i) R)"
  using assms by (simp add: js_nth_def finite_features_def)

lemma math_min_column:
  assumes "R \<noteq> []" "\<forall>row \<in> set R. i < length row"
  shows "math_min (map (\<lambda>row. js_nth row i) (finite_features R)) = Fin (Min (column_values R i))"
proof -
  obtain r rs where f: "R = r # rs" using assms(1) by (cases R) auto
  have "math_min (map (\<lambda>x. Some (Fin x)) (map (\<lambda>row. row ! i) R)) =
        Fin (fold min (map (\<lambda>row. row ! i) rs) (r ! i))"
    by (simp add: math_min_def f to_number_def o_def fold_js_min_fin[unfolded to_number_def])
  also have "fold min (map (\<lambda>row. row ! i) rs) (r ! i) = Min (set ((r ! i) # map (\<lambda>row. row ! i) rs))"
    by (rule Min.set_eq_fold[symmetric])
  also have "set ((r ! i) # map (\<lambda>row. row ! i) rs) = column_values R i"
    by (simp add: f column_values_def)
  finally show ?thesis unfolding column_full[OF assms(2)] .
qed

lemma math_max_column:
  assumes "R \<noteq> []" "\<forall>row \<in> set R. i < length row"
  shows "math_max (map (\<lambda>row. js_nth row i) (finite_features R)) = Fin (Max (column_values R i))"
proof -
  obtain r rs where f: "R = r # rs" using assms(1) by (cases R) auto
  have "math_max (map (\<lambda>x. Some (Fin x)) (map (\<lambda>row. row ! i) R)) =
        Fin (fold max (map (\<lambda>row. row ! i) rs) (r ! i))"
    by (simp add: math_max_def f to_number_def o_def fold_js_max_fin[unfolded to_number_def])
  also have "fold max (map (\<lambda>row. row ! i) rs) (r ! i) = Max (set ((r ! i) # map (\<lambda>row. row ! i) rs))"
    by (rule Max.set_eq_fold[symmetric])
  also have "set ((r ! i) # map (\<lambda>row. row ! i) rs) = column_values R i"
    by (simp add: f column_values_def)
  finally show ?thesis unfolding column_full[OF assms(2)] .
qed

subsection \<open>Rescaling without overflow\<close>

lemma rescale_fin:
  assumes "i < length mn" "i < length mx" "mn ! i = Fin lo" "mx ! i = Fin hi"
    and "lo \<le> v" "v \<le> hi" "hi - lo < overflow_bound"
  shows "rescale mn mx (Fin v, i) = Fin (if hi = lo then 0 else (v - lo) / (hi - lo))"
proof -
  from assms have r: "fl (hi - lo) = Fin (hi - lo)" by (intro fl_small) simp
  from assms have a: "fl (v - lo) = Fin (v - lo)" by (intro fl_small) simp
  show ?thesis
  proof (cases "hi = lo")
    case True
    with assms r show ?thesis
      by (simp add: rescale_def num_at_def js_nth_def flsub_def jssub_def Let_def)
  next
    case False
    with assms have "0 \<le> (v - lo) / (hi - lo)" "(v - lo) / (hi - lo) \<le> 1"
      by (simp_all add: divide_simps)
    then have q: "fl ((v - lo) / (hi - lo)) = Fin ((v - lo) / (hi - lo))" by (rule fl_unit)
    from False assms r a q show ?thesis
      by (simp add: rescale_def num_at_def js_nth_def flsub_def fldiv_def jssub_def Let_def)
  qed
qed

lemma column_values_bounds:
  assumes "row \<in> set feats"
  shows "Min (column_values feats i) \<le> row ! i" "row ! i \<le> Max (column_values feats i)"
  using assms by (auto simp: column_values_def)

lemma normalizeFeatures_equal_rows:
  assumes ne: "R \<noteq> []" and len: "\<forall>row \<in> set R. length row = n"
    and lim: "length R \<le> max_arguments"
    and rng: "\<forall>i < n. Max (column_values R i) - Min (column_values R i) < overflow_bound"
  shows "normalizeFeatures max_arguments (finite_features R) =
     Inr \<lparr> min_col = map (\<lambda>i. Fin (Min (column_values R i))) [0..<n],
           max_col = map (\<lambda>i. Fin (Max (column_values R i))) [0..<n],
           normalized = map (\<lambda>row. map (\<lambda>i. Fin (spec_rescale R i (row ! i))) [0..<n]) R \<rparr>"
proof -
  obtain r rs where f: "R = r # rs" using ne by (cases R) auto
  with len have n: "length r = n" by simp
  let ?F = "finite_features R"
  let ?mn = "map (\<lambda>i. math_min (map (\<lambda>row. js_nth row i) ?F)) [0..<n]"
  let ?mx = "map (\<lambda>i. math_max (map (\<lambda>row. js_nth row i) ?F)) [0..<n]"
  have mn: "?mn = map (\<lambda>i. Fin (Min (column_values R i))) [0..<n]"
    using len by (intro map_cong refl math_min_column[OF ne]) auto
  have mx: "?mx = map (\<lambda>i. Fin (Max (column_values R i))) [0..<n]"
    using len by (intro map_cong refl math_max_column[OF ne]) auto
  have row: "map (rescale ?mn ?mx) (zip (map Fin row) [0..<length (map Fin row)]) =
             map (\<lambda>i. Fin (spec_rescale R i (row ! i))) [0..<n]"
    if "row \<in> set R" for row
  proof (rule nth_equalityI)
    from that len show "length (map (rescale ?mn ?mx) (zip (map Fin row) [0..<length (map Fin row)])) =
        length (map (\<lambda>i. Fin (spec_rescale R i (row ! i))) [0..<n])"
      by simp
  next
    fix i assume "i < length (map (rescale ?mn ?mx) (zip (map Fin row) [0..<length (map Fin row)]))"
    with that len have i: "i < n" "i < length row" by auto
    from rng i(1) have b: "Max (column_values R i) - Min (column_values R i) < overflow_bound"
      by simp
    have "rescale (map (\<lambda>i. Fin (Min (column_values R i))) [0..<n])
            (map (\<lambda>i. Fin (Max (column_values R i))) [0..<n]) (Fin (row ! i), i) =
          Fin (spec_rescale R i (row ! i))"
      using i column_values_bounds[OF that, of i] b
      by (subst rescale_fin[where lo="Min (column_values R i)" and hi="Max (column_values R i)"])
         (simp_all add: spec_rescale_def Let_def)
    with i show "map (rescale ?mn ?mx) (zip (map Fin row) [0..<length (map Fin row)]) ! i =
          map (\<lambda>i. Fin (spec_rescale R i (row ! i))) [0..<n] ! i"
      unfolding mn mx by simp
  qed
  have lenF: "length ?F = length R" by (simp add: finite_features_def)
  have hdF: "?F = map Fin r # finite_features rs" by (simp add: f finite_features_def)
  have "normalizeFeatures max_arguments ?F =
      Inr \<lparr> min_col = ?mn, max_col = ?mx,
            normalized = map (\<lambda>row. map (rescale ?mn ?mx) (zip row [0..<length row])) ?F \<rparr>"
  proof -
    from lim lenF have "\<not> max_arguments < length ?F" by simp
    then show ?thesis
      unfolding normalizeFeatures_def hdF by (simp add: Let_def n)
  qed
  moreover have "map (\<lambda>row. map (rescale ?mn ?mx) (zip row [0..<length row])) ?F =
      map (\<lambda>row. map (\<lambda>i. Fin (spec_rescale R i (row ! i))) [0..<n]) R"
    using row by (simp add: finite_features_def)
  ultimately show ?thesis by (simp add: mn mx)
qed


lemma column_values_attained:
  assumes "feats \<noteq> []"
  shows "\<exists>a < length feats. feats ! a ! i = Min (column_values feats i)"
    and "\<exists>a < length feats. feats ! a ! i = Max (column_values feats i)"
proof -
  have fin: "finite (column_values feats i)" "column_values feats i \<noteq> {}"
    using assms by (auto simp: column_values_def)
  from Min_in[OF fin] obtain row where "row \<in> set feats" "row ! i = Min (column_values feats i)"
    by (auto simp: column_values_def)
  then show "\<exists>a < length feats. feats ! a ! i = Min (column_values feats i)"
    by (auto simp: in_set_conv_nth)
  from Max_in[OF fin] obtain row where "row \<in> set feats" "row ! i = Max (column_values feats i)"
    by (auto simp: column_values_def)
  then show "\<exists>a < length feats. feats ! a ! i = Max (column_values feats i)"
    by (auto simp: in_set_conv_nth)
qed

lemma spec_rescale_unit:
  assumes "row \<in> set feats"
  shows "0 \<le> spec_rescale feats i (row ! i)" "spec_rescale feats i (row ! i) \<le> 1"
  using column_values_bounds[OF assms, of i]
  by (auto simp: spec_rescale_def Let_def divide_simps)

subsection \<open>Inputs on which the normalizer does not rescale into the unit interval\<close>

lemma normalizeFeatures_empty: "normalizeFeatures max_arguments [] = Inl TypeError"
  by (simp add: normalizeFeatures_def)

lemma normalizeFeatures_too_many_rows:
  assumes "row0 \<noteq> []" and "max_arguments < length (row0 # rows)"
  shows "normalizeFeatures max_arguments (row0 # rows) = Inl RangeError"
  using assms by (simp add: normalizeFeatures_def Let_def)

lemma fl_zero: "fl 0 = Fin 0"
  using overflow_bound_gt by (simp add: fl_def)

lemma fl_one: "fl 1 = Fin 1"
  using overflow_bound_gt by (simp add: fl_def)

lemma fl_huge: "fl huge = Fin huge"
  using huge_pos huge_finite by (simp add: fl_def)

lemma fl_huge_twice: "fl (2 * huge) = PosInf"
  using huge_pos huge_overflows by (simp add: fl_def signed_inf_def)

lemma normalizeFeatures_non_finite_entries:
  "normalizeFeatures 65535 [[NaN], [Fin 1]] =
     Inr \<lparr> min_col = [NaN], max_col = [NaN], normalized = [[NaN], [NaN]] \<rparr>"
  "normalizeFeatures 65535 [[PosInf], [Fin 1]] =
     Inr \<lparr> min_col = [Fin 1], max_col = [PosInf], normalized = [[NaN], [Fin 0]] \<rparr>"
  by (simp_all add: normalizeFeatures_def Let_def math_min_def math_max_def to_number_def
      js_nth_def rescale_def num_at_def flsub_def fldiv_def jssub_def fl_zero)

text \<open>
  C6, as stated: every non-empty feature matrix with rows of equal length is mapped
  into \<open>[0, 1]\<close>, the maximum of a column with \<open>max > min\<close> to 1. It is not: the
  doubles \<open>- 2 ^ 1023\<close>, \<open>2 ^ 1023\<close> and \<open>0\<close> in one column have the finite minimum
  and maximum \<open>- 2 ^ 1023\<close> and \<open>2 ^ 1023\<close>, whose difference is infinite, and the
  maximum is mapped to \<open>NaN\<close> (here on an engine that accepts 65535 arguments in a
  call; three are spread).
\<close>

theorem normalizeFeatures_overflow_NaN:
  "normalizeFeatures 65535 [[Fin (- huge)], [Fin huge], [Fin 0]] =
     Inr \<lparr> min_col = [Fin (- huge)], max_col = [Fin huge],
           normalized = [[Fin 0], [NaN], [Fin 0]] \<rparr> \<and>
   - huge < huge \<and> huge < overflow_bound"
proof -
  have m: "min (- huge) huge = - huge" "min (- huge) 0 = - huge"
    "max (- huge) huge = huge" "max huge 0 = huge"
    using huge_pos by simp_all
  have "normalizeFeatures 65535 [[Fin (- huge)], [Fin huge], [Fin 0]] =
     Inr \<lparr> min_col = [Fin (- huge)], max_col = [Fin huge],
           normalized = [[Fin 0], [NaN], [Fin 0]] \<rparr>"
    by (simp add: normalizeFeatures_def Let_def math_min_def math_max_def to_number_def
        js_nth_def rescale_def num_at_def flsub_def fldiv_def jssub_def m
        fl_zero fl_huge fl_huge_twice)
  with huge_pos huge_finite show ?thesis by simp
qed

text \<open>
  C6, amended: for every non-empty matrix of finite numbers whose rows all have \<open>n\<close>
  entries, that has no more rows than the engine accepts arguments in a call and in
  whose columns the maximum exceeds the minimum by less than \<open>2 ^ 1024 - 2 ^ 970\<close>,
  \<open>normalizeFeatures\<close> returns; the returned \<open>min\<close> and \<open>max\<close> are the minimum and the
  maximum of each column, both attained there; every normalized entry is a finite
  number in \<open>[0, 1]\<close>; where the maximum exceeds the minimum an entry equal to the
  minimum becomes 0 and one equal to the maximum becomes 1, and where they are equal
  every entry becomes 0.
\<close>

theorem normalizeFeatures_unit_interval:
  assumes "R \<noteq> []" and "\<forall>row \<in> set R. length row = n"
    and "length R \<le> max_arguments"
    and "\<forall>i < n. Max (column_values R i) - Min (column_values R i) < overflow_bound"
  shows "\<exists>r. normalizeFeatures max_arguments (finite_features R) = Inr r \<and>
     length (normalized r) = length R \<and>
     (\<forall>a < length R. length (normalized r ! a) = n \<and>
        (\<forall>i < n. \<exists>v. normalized r ! a ! i = Fin v \<and> 0 \<le> v \<and> v \<le> 1 \<and>
            (Min (column_values R i) < Max (column_values R i) \<longrightarrow>
               (R ! a ! i = Min (column_values R i) \<longrightarrow> v = 0) \<and>
               (R ! a ! i = Max (column_values R i) \<longrightarrow> v = 1)) \<and>
            (Min (column_values R i) = Max (column_values R i) \<longrightarrow> v = 0))) \<and>
     (\<forall>i < n. min_col r ! i = Fin (Min (column_values R i)) \<and>
               max_col r ! i = Fin (Max (column_values R i)) \<and>
               (\<exists>a < length R. R ! a ! i = Min (column_values R i)) \<and>
               (\<exists>a < length R. R ! a ! i = Max (column_values R i)))"
proof -
  let ?r = "\<lparr> min_col = map (\<lambda>i. Fin (Min (column_values R i))) [0..<n],
           max_col = map (\<lambda>i. Fin (Max (column_values R i))) [0..<n],
           normalized = map (\<lambda>row. map (\<lambda>i. Fin (spec_rescale R i (row ! i))) [0..<n]) R \<rparr>"
  have eq: "normalizeFeatures max_arguments (finite_features R) = Inr ?r"
    by (rule normalizeFeatures_equal_rows[OF assms])
  have entries: "length (normalized ?r ! a) = n \<and>
        (\<forall>i < n. \<exists>v. normalized ?r ! a ! i = Fin v \<and> 0 \<le> v \<and> v \<le> 1 \<and>
            (Min (column_values R i) < Max (column_values R i) \<longrightarrow>
               (R ! a ! i = Min (column_values R i) \<longrightarrow> v = 0) \<and>
               (R ! a ! i = Max (column_values R i) \<longrightarrow> v = 1)) \<and>
            (Min (column_values R i) = Max (column_values R i) \<longrightarrow> v = 0))"
    if a: "a < length R" for a
  proof -
    from a have mem: "R ! a \<in> set R" by simp
    have "spec_rescale R i (R ! a ! i) = 0"
      if "R ! a ! i = Min (column_values R i)" for i
      using that by (simp add: spec_rescale_def Let_def)
    moreover have "spec_rescale R i (R ! a ! i) = 1"
      if "R ! a ! i = Max (column_values R i)"
         "Min (column_values R i) < Max (column_values R i)" for i
      using that by (simp add: spec_rescale_def Let_def)
    moreover have "spec_rescale R i (R ! a ! i) = 0"
      if "Min (column_values R i) = Max (column_values R i)" for i
      using that by (simp add: spec_rescale_def Let_def)
    ultimately show ?thesis
      using a spec_rescale_unit[OF mem] by simp
  qed
  have cols: "min_col ?r ! i = Fin (Min (column_values R i)) \<and>
               max_col ?r ! i = Fin (Max (column_values R i)) \<and>
               (\<exists>a < length R. R ! a ! i = Min (column_values R i)) \<and>
               (\<exists>a < length R. R ! a ! i = Max (column_values R i))"
    if "i < n" for i
    using that column_values_attained[OF assms(1), of i] by simp
  have "length (normalized ?r) = length R" by simp
  with eq entries cols show ?thesis by blast
qed

theorem normalizeFeatures_unit_interval_witness:
  "[[1, 5], [3, 5], [2, 5]] \<noteq> ([] :: real list list) \<and>
   map length [[1, 5], [3, 5], [2, 5 :: real]] = [2, 2, 2] \<and>
   length [[1, 5], [3, 5], [2, 5 :: real]] \<le> 65535 \<and>
   Max (column_values [[1, 5], [3, 5], [2, 5]] 0) - Min (column_values [[1, 5], [3, 5], [2, 5]] 0)
     < overflow_bound \<and>
   Max (column_values [[1, 5], [3, 5], [2, 5]] 1) - Min (column_values [[1, 5], [3, 5], [2, 5]] 1)
     < overflow_bound \<and>
   Min (column_values [[1, 5], [3, 5], [2, 5]] 0) < Max (column_values [[1, 5], [3, 5], [2, 5]] 0) \<and>
   Min (column_values [[1, 5], [3, 5], [2, 5]] 1) = Max (column_values [[1, 5], [3, 5], [2, 5]] 1) \<and>
   (\<exists>r. normalizeFeatures 65535 (finite_features [[1, 5], [3, 5], [2, 5]]) = Inr r \<and>
        normalized r ! 0 ! 0 = Fin 0 \<and> normalized r ! 1 ! 0 = Fin 1 \<and>
        normalized r ! 2 ! 1 = Fin 0 \<and>
        (\<exists>v. normalized r ! 2 ! 0 = Fin v \<and> 0 \<le> v \<and> v \<le> 1))"
proof -
  let ?F = "[[1, 5], [3, 5], [2, 5 :: real]]"
  have h1: "?F \<noteq> []" by simp
  have h2: "\<forall>row \<in> set ?F. length row = 2" by simp
  have h3: "length ?F \<le> 65535" by simp
  have lo0: "Min (column_values ?F 0) = 1" and hi0: "Max (column_values ?F 0) = 3"
    and lo1: "Min (column_values ?F 1) = 5" and hi1: "Max (column_values ?F 1) = 5"
    by (simp_all add: column_values_def)
  have b0: "Max (column_values ?F 0) - Min (column_values ?F 0) < overflow_bound"
    and b1: "Max (column_values ?F 1) - Min (column_values ?F 1) < overflow_bound"
    unfolding lo0 hi0 lo1 hi1 using overflow_bound_gt by simp_all
  have h4: "\<forall>i < 2. Max (column_values ?F i) - Min (column_values ?F i) < overflow_bound"
  proof (intro allI impI)
    fix i :: nat assume "i < 2"
    then have "i = 0 \<or> i = 1" by auto
    with b0 b1 show "Max (column_values ?F i) - Min (column_values ?F i) < overflow_bound"
      by auto
  qed
  from normalizeFeatures_unit_interval[OF h1 h2 h3 h4] obtain r where
    r: "normalizeFeatures 65535 (finite_features ?F) = Inr r"
    and e: "\<forall>a < length ?F. length (normalized r ! a) = 2 \<and>
        (\<forall>i < 2. \<exists>v. normalized r ! a ! i = Fin v \<and> 0 \<le> v \<and> v \<le> 1 \<and>
            (Min (column_values ?F i) < Max (column_values ?F i) \<longrightarrow>
               (?F ! a ! i = Min (column_values ?F i) \<longrightarrow> v = 0) \<and>
               (?F ! a ! i = Max (column_values ?F i) \<longrightarrow> v = 1)) \<and>
            (Min (column_values ?F i) = Max (column_values ?F i) \<longrightarrow> v = 0))"
    by blast
  have e': "\<exists>v. normalized r ! a ! i = Fin v \<and> 0 \<le> v \<and> v \<le> 1 \<and>
            (Min (column_values ?F i) < Max (column_values ?F i) \<longrightarrow>
               (?F ! a ! i = Min (column_values ?F i) \<longrightarrow> v = 0) \<and>
               (?F ! a ! i = Max (column_values ?F i) \<longrightarrow> v = 1)) \<and>
            (Min (column_values ?F i) = Max (column_values ?F i) \<longrightarrow> v = 0)"
    if "a < 3" "i < 2" for a i
  proof -
    from that(1) have "a < length ?F" by simp
    with e that(2) show ?thesis by blast
  qed
  from e'[of 0 0] lo0 hi0 have a: "normalized r ! 0 ! 0 = Fin 0" by auto
  from e'[of 1 0] lo0 hi0 have b: "normalized r ! 1 ! 0 = Fin 1" by auto
  from e'[of 2 1] lo1 hi1 have c: "normalized r ! 2 ! 1 = Fin 0" by auto
  from e'[of 2 0] have d: "\<exists>v. normalized r ! 2 ! 0 = Fin v \<and> 0 \<le> v \<and> v \<le> 1"
    by auto
  from h2 b0 b1 lo0 hi0 lo1 hi1 r a b c d show ?thesis by auto
qed

section \<open>Properties of calibration and decision\<close>

lemma powr_five_halves: "0 < x \<Longrightarrow> x powr (5 / 2) = x\<^sup>2 * sqrt x"
proof -
  assume x: "0 < x"
  have "x powr (5 / 2) = x powr (2 + 1 / 2)" by simp
  also have "\<dots> = x powr 2 * x powr (1 / 2)" by (rule powr_add)
  also have "\<dots> = x\<^sup>2 * sqrt x" using x by (simp add: powr_half_sqrt powr_numeral)
  finally show ?thesis .
qed

lemma sqrt_bounds_a: "632 / 1000 < sqrt (2 / 5)" "sqrt (2 / 5) < 633 / 1000"
proof -
  show "632 / 1000 < sqrt (2 / 5)"
    by (rule real_less_rsqrt) (simp add: power2_eq_square)
  show "sqrt (2 / 5) < 633 / 1000"
    by (rule real_less_lsqrt) (simp_all add: power2_eq_square)
qed

lemma sqrt_bounds_b: "591 / 1000 < sqrt (7 / 20)" "sqrt (7 / 20) < 592 / 1000"
proof -
  show "591 / 1000 < sqrt (7 / 20)"
    by (rule real_less_rsqrt) (simp add: power2_eq_square)
  show "sqrt (7 / 20) < 592 / 1000"
    by (rule real_less_lsqrt) (simp_all add: power2_eq_square)
qed

lemma sqrt_quarter: "sqrt (1 / 4) = 1 / 2"
  by (simp add: real_sqrt_divide)

lemma scenario_a_bounds: "10112 / 100000 < scenario_a" "scenario_a < 10128 / 100000"
  using sqrt_bounds_a by (simp_all add: scenario_a_def powr_five_halves power2_eq_square)

lemma scenario_b_bounds: "723975 / 10000000 < scenario_b" "scenario_b < 7252 / 100000"
  using sqrt_bounds_b by (simp_all add: scenario_b_def powr_five_halves power2_eq_square)

lemma scenario_c_val: "scenario_c = 1 / 32"
  by (simp add: scenario_c_def powr_five_halves power2_eq_square sqrt_quarter)

lemma scale_scenario:
  "temperature_scale [2 / 5, 7 / 20, 1 / 4] =
     [scenario_a / (scenario_a + scenario_b + scenario_c), scenario_b / (scenario_a + scenario_b + scenario_c), scenario_c / (scenario_a + scenario_b + scenario_c)]"
  by (simp add: temperature_scale_def temperature_def Let_def scenario_a_def scenario_b_def scenario_c_def)

lemma rand_bounds: "0 \<le> rand rnd p" "rand rnd p < 1"
  using Rep_unit_real[of "rnd p"] by (simp_all add: rand_def)

lemma rand_int_less: "0 < n \<Longrightarrow> rand_int rnd p n < n"
proof -
  assume n: "0 < n"
  have "rand rnd p * real n < real n"
    using rand_bounds(2)[of rnd p] n by simp
  then have "\<lfloor>rand rnd p * real n\<rfloor> < int n"
    by (simp add: floor_less_iff)
  moreover have "0 \<le> \<lfloor>rand rnd p * real n\<rfloor>"
    using rand_bounds(1)[of rnd p] by simp
  ultimately show ?thesis unfolding rand_int_def by linarith
qed

lemma scenario_order: "scenario_c < scenario_b" "scenario_b < scenario_a" "0 < scenario_c"
  using scenario_a_bounds scenario_b_bounds by (simp_all add: scenario_c_val)

lemma scenario_sum_pos: "0 < scenario_a + scenario_b + scenario_c"
  using scenario_order by linarith

lemma scenario_confidence_bounds: "49 / 100 < scenario_confidence" "scenario_confidence < 1 / 2"
  using scenario_a_bounds scenario_b_bounds scenario_sum_pos
  by (simp_all add: scenario_confidence_def scenario_c_val divide_simps)

lemma argmax_rotations:
  assumes "0 < c" "c < b" "b < a"
  shows "argmax [Some a, Some b, Some c] = (a, 0)"
    and "argmax [Some b, Some c, Some a] = (a, 2)"
    and "argmax [Some c, Some a, Some b] = (a, 1)"
  using assms by (simp_all add: argmax_def argmax_step_def upt_rec_numeral)

lemma predict_scenario:
  assumes "model (normalize_row normalization feats) = [2 / 5, 7 / 20, 1 / 4]"
  shows "confidence (predict model feats normalization rnd p) = scenario_confidence \<and>
         disease (predict model feats normalization rnd p) =
           Some (DISEASE_LABELS ! ((3 - rand_int rnd p 3) mod 3))"
proof -
  let ?s = "scenario_a + scenario_b + scenario_c"
  have ord: "0 < scenario_c / ?s" "scenario_c / ?s < scenario_b / ?s" "scenario_b / ?s < scenario_a / ?s"
    using scenario_order scenario_sum_pos by (simp_all add: divide_strict_right_mono)
  have "rand_int rnd p 3 < 3" by (rule rand_int_less) simp
  then consider "rand_int rnd p 3 = 0" | "rand_int rnd p 3 = 1" | "rand_int rnd p 3 = 2"
    by linarith
  then show ?thesis
  proof cases
    case 1
    then show ?thesis
      using argmax_rotations(1)[OF ord]
      by (simp add: predict_def assms scale_scenario Let_def js_nth_def scenario_confidence_def
          DISEASE_LABELS_def)
  next
    case 2
    then show ?thesis
      using argmax_rotations(2)[OF ord]
      by (simp add: predict_def assms scale_scenario Let_def js_nth_def scenario_confidence_def
          DISEASE_LABELS_def)
  next
    case 3
    then show ?thesis
      using argmax_rotations(3)[OF ord]
      by (simp add: predict_def assms scale_scenario Let_def js_nth_def scenario_confidence_def
          DISEASE_LABELS_def)
  qed
qed

text \<open>
  C4, as stated: for the raw vector \<open>[0.4, 0.35, 0.25]\<close> the reported confidence
  exceeds 0.6. It does not: at the scenario input it is below 0.6.
\<close>

theorem predict_scenario_below_six_tenths:
  "confidence (predict scenario_model [] no_normalization always_half 0) < 6 / 10"
proof -
  have "scenario_model (normalize_row no_normalization []) = [2 / 5, 7 / 20, 1 / 4]"
    by (simp add: scenario_model_def)
  with predict_scenario[of scenario_model no_normalization "[]" always_half 0]
    scenario_confidence_bounds(2)
  show ?thesis by simp
qed

text \<open>
  C4, amended: for a classifier output \<open>[0.4, 0.35, 0.25]\<close>, \<open>predict\<close> reports the
  confidence \<open>0.4 powr 2.5 / (0.4 powr 2.5 + 0.35 powr 2.5 + 0.25 powr 2.5)\<close>, which
  lies strictly between 0.49 and 0.5 (above the raw 0.4), whatever the rotation; the
  reported class is the first class moved by the rotation.
\<close>

theorem predict_scenario_confidence:
  assumes "model (normalize_row normalization feats) = [0.4, 0.35, 0.25]"
  shows "confidence (predict model feats normalization rnd p) = scenario_confidence \<and>
         49 / 100 < confidence (predict model feats normalization rnd p) \<and>
         confidence (predict model feats normalization rnd p) < 1 / 2 \<and>
         disease (predict model feats normalization rnd p) =
           Some (DISEASE_LABELS ! ((3 - rand_int rnd p 3) mod 3))"
proof -
  from assms have "model (normalize_row normalization feats) = [2 / 5, 7 / 20, 1 / 4]"
    by simp
  with predict_scenario[of model normalization feats rnd p] scenario_confidence_bounds
  show ?thesis by simp
qed

theorem predict_scenario_confidence_witness:
  "scenario_model (normalize_row no_normalization []) = [0.4, 0.35, 0.25] \<and>
   49 / 100 < confidence (predict scenario_model [] no_normalization always_half 0) \<and>
   confidence (predict scenario_model [] no_normalization always_half 0) < 1 / 2"
proof -
  have h: "scenario_model (normalize_row no_normalization []) = [0.4, 0.35, 0.25]"
    by (simp add: scenario_model_def)
  with predict_scenario_confidence[of scenario_model no_normalization "[]" always_half 0]
  show ?thesis by blast
qed

section \<open>Properties of the shuffle and of the cohort generator\<close>

lemma rand_half: "rand always_half p = 1 / 2"
  by (simp add: rand_def always_half_def half.rep_eq)

lemma swap_mset: "i < length xs \<Longrightarrow> j < length xs \<Longrightarrow> mset (swap xs i j) = mset xs"
  unfolding swap_def by (rule mset_swap[of j xs i])

lemma swap_length: "length (swap xs i j) = length xs"
  by (simp add: swap_def)

lemma shuffle_loop_mset:
  "i < length xs \<or> i = 0 \<Longrightarrow> mset (fst (shuffle_loop rnd i p xs)) = mset xs"
proof (induction i arbitrary: p xs)
  case 0
  then show ?case by simp
next
  case (Suc i)
  then have i: "Suc i < length xs" by simp
  have "rand_int rnd p (Suc i + 1) < Suc i + 1" by (rule rand_int_less) simp
  with i have j: "rand_int rnd p (Suc i + 1) < length xs" by simp
  have "mset (fst (shuffle_loop rnd i (p + 1) (swap xs (Suc i) (rand_int rnd p (Suc i + 1))))) =
        mset (swap xs (Suc i) (rand_int rnd p (Suc i + 1)))"
    using i by (intro Suc.IH) (simp add: swap_length)
  with i j show ?case by (simp add: swap_mset Let_def)
qed

lemma shuffle_mset: "mset (fst (shuffle rnd p xs)) = mset xs"
  unfolding shuffle_def by (rule shuffle_loop_mset) (cases xs, auto)

lemma class_count_mset: "class_count ls c = count (mset ls) c"
  by (induction ls) (auto simp: class_count_def)

lemma shuffle_class_count: "class_count (fst (shuffle rnd p xs)) c = class_count xs c"
  by (simp add: class_count_mset shuffle_mset)

lemma shuffle_length: "length (fst (shuffle rnd p xs)) = length xs"
  using shuffle_mset[of rnd p xs] by (metis size_mset)

lemma shuffle_set: "set (fst (shuffle rnd p xs)) = set xs"
  using shuffle_mset[of rnd p xs] by (metis set_mset_mset)

lemma draws_disease_profile: "draws (disease_profile d u) = (if d = 1 then 26 else 27)"
  by (simp add: disease_profile_def initial_profile_def)

lemma sample_record_label: "snd (fst (sample_record rnd p planned)) = chosen_class rnd p planned"
  unfolding sample_record_def chosen_class_def
  by (simp only: Let_def split_beta fst_conv snd_conv split: option.split) simp

lemma sample_record_length: "length (fst (fst (sample_record rnd p planned))) = 53"
  unfolding sample_record_def
  by (simp only: Let_def split_beta fst_conv snd_conv) simp

lemma sample_record_next:
  "snd (sample_record rnd p planned) =
     (if planned = None \<or> planned = Some 0 then p + 1 else p) +
     (if chosen_class rnd p planned = 1 then 26 else 27) + 15"
  unfolding sample_record_def chosen_class_def
  by (simp only: Let_def split_beta fst_conv snd_conv draws_disease_profile split: option.split)
     auto

lemma chosen_class_less:
  assumes "\<And>d. planned = Some d \<Longrightarrow> d < 3"
  shows "chosen_class rnd p planned < 3"
proof -
  have "rand_int rnd p 3 < 3" by (rule rand_int_less) simp
  with assms show ?thesis
    by (auto simp: chosen_class_def split: option.splits)
qed

lemma sample_record_shape:
  assumes "\<And>d. planned = Some d \<Longrightarrow> d < 3"
  shows "length (fst (fst (sample_record rnd p planned))) = 53 \<and>
         snd (fst (sample_record rnd p planned)) < 3"
  using chosen_class_less[OF assms] by (simp add: sample_record_length sample_record_label)

lemma sample_loop_labels:
  "map snd (sample_loop rnd ds i (Suc n) p) =
     chosen_class rnd p (js_nth ds i) #
     map snd (sample_loop rnd ds (i + 1) n (snd (sample_record rnd p (js_nth ds i))))"
  by (simp add: split_beta sample_record_label)

lemma rand_int_half:
  "rand_int always_half p 3 = 1"
  "rand_int always_half p (Suc (Suc (Suc 0))) = Suc 0"
  "rand_int always_half p (Suc (Suc 0)) = Suc 0"
  by (simp_all add: rand_int_def rand_half)

lemma shuffle_three: "shuffle always_half 0 [0, 1, 2 :: nat] = ([0, 2, 1], 2)"
proof -
  have "shuffle_loop always_half (Suc (Suc 0)) 0 [0, 1, 2 :: nat] = ([0, 2, 1], 2)"
    by (simp add: rand_int_half swap_def)
  then show ?thesis by (simp add: shuffle_def numeral_2_eq_2)
qed

lemma sample_loop_shape:
  assumes "\<forall>d \<in> set diseases. d < 3"
  shows "length (sample_loop rnd diseases i n p) = n \<and>
         (\<forall>r \<in> set (sample_loop rnd diseases i n p). length (fst r) = 53 \<and> snd r < 3)"
proof (induction n arbitrary: i p)
  case 0
  then show ?case by simp
next
  case (Suc n)
  have pl: "\<And>d. js_nth diseases i = Some d \<Longrightarrow> d < 3"
    using assms by (auto simp: js_nth_def split: if_splits)
  obtain r p' where sr: "sample_record rnd p (js_nth diseases i) = (r, p')"
    by (cases "sample_record rnd p (js_nth diseases i)")
  from sample_record_shape[where planned="js_nth diseases i" and rnd=rnd and p=p, OF pl] sr
  have "length (fst r) = 53 \<and> snd r < 3" by simp
  with sr Suc[of "i + 1" p'] show ?case by simp
qed

lemma generateSampleData_shape:
  "length (features (generateSampleData n rnd)) = n \<and>
   length (labels (generateSampleData n rnd)) = n \<and>
   (\<forall>f \<in> set (features (generateSampleData n rnd)). length f = 53) \<and>
   (\<forall>l \<in> set (labels (generateSampleData n rnd)). l < 3)"
proof -
  let ?planned = "concat (map (\<lambda>d. replicate (n div 3) d) [0, 1, 2 :: nat])"
  have "\<forall>d \<in> set (fst (shuffle rnd 0 ?planned)). d < 3"
    by (auto simp: shuffle_set)
  from sample_loop_shape[OF this, of rnd 0 n "snd (shuffle rnd 0 ?planned)"]
  show ?thesis
    by (auto simp: generateSampleData_def Let_def split: prod.splits)
qed

text \<open>
  C1. The claim: for a count divisible by 3 the generator returns exactly a third
  of the records with each label. The code plans such a list and shuffles it, but
  takes \<open>diseases[i] || Math.floor(Math.random() * 3)\<close>, and the planned class 0 is
  falsy: every record planned as class 0 gets a drawn class instead. For the count 3
  and a random source that always gives \<open>1 / 2\<close>, the plan \<open>[0, 1, 2]\<close> is shuffled
  to \<open>[0, 2, 1]\<close> and the labels are \<open>[1, 2, 1]\<close>: no record of class 0, two of
  class 1, one of class 2.
\<close>

theorem generateSampleData_three_unbalanced:
  "fst (shuffle always_half 0 [0, 1, 2 :: nat]) = [0, 2, 1] \<and>
   labels (generateSampleData 3 always_half) = [1, 2, 1] \<and>
   map (class_count (labels (generateSampleData 3 always_half))) [0, 1, 2] = [0, 2, 1]"
proof -
  have pl: "concat (map (\<lambda>d. replicate (3 div 3) d) [0, 1, 2 :: nat]) = [0, 1, 2]"
    by simp
  have lb: "map snd (sample_loop always_half [0, 2, 1] 0 3 2) = [1, 2, 1]"
    unfolding numeral_3_eq_3 sample_loop_labels
    by (simp add: chosen_class_def js_nth_def rand_int_half)
  have l: "labels (generateSampleData 3 always_half) = [1, 2, 1]"
    unfolding generateSampleData_def Let_def pl shuffle_three
    by (simp only: prod.case training_data.select_convs lb)
  have s: "fst (shuffle always_half 0 [0, 1, 2 :: nat]) = [0, 2, 1]"
    by (simp only: shuffle_three fst_conv)
  have cc: "map (class_count [1, 2, 1 :: nat]) [0, 1, 2] = [0, 2, 1]"
    by (simp add: class_count_def)
  show ?thesis
    by (simp only: s l cc simp_thms)
qed

section \<open>Properties of batch processing\<close>

lemma batch_loop_length: "length (batch_loop targets counts ps) = length ps"
  by (induction ps arbitrary: counts) (auto simp: split_beta)

lemma predictBatch_length: "length (predictBatch model fa normalization) = length fa"
  by (simp add: predictBatch_def Let_def batch_loop_length)

lemma balanced_classes_length: "length (balanced_classes n) = n"
  by (simp add: balanced_classes_def Let_def) presburger

lemma balanced_classes_set: "set (balanced_classes n) \<subseteq> set DISEASE_LABELS"
  by (auto simp: balanced_classes_def Let_def DISEASE_LABELS_def)

lemma class_count_append: "class_count (xs @ ys) c = class_count xs c + class_count ys c"
  by (simp add: class_count_def)

lemma class_count_replicate: "class_count (replicate k x) c = (if x = c then k else 0)"
  by (simp add: class_count_def)

lemma balanced_classes_count:
  assumes "c < 3"
  shows "class_count (balanced_classes n) (DISEASE_LABELS ! c) =
         n div 3 + (if c < n mod 3 then 1 else 0)"
proof -
  from assms consider "c = 0" | "c = 1" | "c = 2" by linarith
  then show ?thesis
    by cases
       (simp_all add: balanced_classes_def Let_def DISEASE_LABELS_def class_count_append
          class_count_replicate)
qed

lemma batch_rows_predicted:
  assumes "length bc = length bp" "[] \<notin> set bc"
  shows "map predicted (batch_rows bc al bp) = map Some bc"
proof (rule nth_equalityI)
  show "length (map predicted (batch_rows bc al bp)) = length (map Some bc)"
    using assms by (simp add: batch_rows_def)
next
  fix i assume "i < length (map predicted (batch_rows bc al bp))"
  then have i: "i < length bp" by (simp add: batch_rows_def)
  with assms have "bc ! i \<noteq> []" by (metis nth_mem)
  with i assms(1) show "map predicted (batch_rows bc al bp) ! i = map Some bc ! i"
    by (simp add: batch_rows_def js_nth_def falsy_string_def)
qed

lemma batch_predictions_labels:
  "map predicted (batch_predictions model normalization rnd al fa) =
     map Some (fst (shuffle rnd 0 (balanced_classes (length fa))))"
proof -
  let ?bc = "fst (shuffle rnd 0 (balanced_classes (length fa)))"
  have len: "length ?bc = length (predictBatch model fa normalization)"
    by (simp add: shuffle_length balanced_classes_length predictBatch_length)
  have "[] \<notin> set ?bc"
    using balanced_classes_set[of "length fa"] by (auto simp: shuffle_set DISEASE_LABELS_def)
  from batch_rows_predicted[OF len this] show ?thesis
    by (simp add: batch_predictions_def Let_def split_beta predictBatch_length)
qed

lemma class_count_map_Some: "class_count (map Some xs) (Some c) = class_count xs c"
  by (induction xs) (auto simp: class_count_def)

lemma class_count_map_Some_None: "class_count (map Some xs) None = 0"
  by (induction xs) (auto simp: class_count_def)

lemma batch_predictions_count:
  "c < 3 \<Longrightarrow>
   class_count (map predicted (batch_predictions model normalization rnd al fa))
     (Some (DISEASE_LABELS ! c)) = length fa div 3 + (if c < length fa mod 3 then 1 else 0)"
  by (simp add: batch_predictions_labels class_count_map_Some shuffle_class_count
      balanced_classes_count)

lemma batch_predictions_count_any:
  "class_count (map predicted (batch_predictions model normalization rnd al fa)) l =
   (case l of None \<Rightarrow> 0 | Some s \<Rightarrow> class_count (balanced_classes (length fa)) s)"
  by (cases l)
     (simp_all add: batch_predictions_labels class_count_map_Some class_count_map_Some_None
        shuffle_class_count)

lemma handleBatchProcess_result:
  assumes "handleBatchProcess model normalization rnd content = Inr r"
  shows "\<exists>headers rows converted.
           parseCSV content = Inr (headers, rows) \<and>
           convertToTrainingData headers rows = Inr converted \<and>
           totalRecords r = length (features converted) \<and>
           predictions r = batch_predictions model normalization rnd
                             (actual_labels headers rows) (features converted)"
  using assms
  by (auto simp: handleBatchProcess_def Let_def split: sum.splits prod.splits if_splits)

text \<open>
  C2. The predicted labels of a batch are the shuffled balanced list: whatever the
  classifier, the normalization data, the random source and the feature values, class
  \<open>c\<close> is predicted \<open>n div 3\<close> times, once more when \<open>c < n mod 3\<close>, for \<open>n\<close> encoded
  rows. Two runs over the same number of rows give every label the same count. The
  result of the handler has these predictions, \<open>totalRecords\<close> of them.
\<close>

theorem batch_labels_balanced:
  "(\<forall>c < 3. class_count (map predicted (batch_predictions model normalization rnd al fa))
               (Some (DISEASE_LABELS ! c)) =
             length fa div 3 + (if c < length fa mod 3 then 1 else 0)) \<and>
   length (batch_predictions model normalization rnd al fa) = length fa \<and>
   (length fa = length fa' \<longrightarrow>
      class_count (map predicted (batch_predictions model normalization rnd al fa)) l =
      class_count (map predicted (batch_predictions model' normalization' rnd' al' fa')) l) \<and>
   (handleBatchProcess model normalization rnd content = Inr r \<longrightarrow>
      length (predictions r) = totalRecords r \<and>
      (\<forall>c < 3. class_count (map predicted (predictions r)) (Some (DISEASE_LABELS ! c)) =
                totalRecords r div 3 + (if c < totalRecords r mod 3 then 1 else 0)))"
proof -
  have len: "length (batch_predictions m nz rn a f) = length f" for m nz rn a f
    by (simp add: batch_predictions_def Let_def split_beta batch_rows_def predictBatch_length)
  have "length (predictions r) = totalRecords r \<and>
      (\<forall>c < 3. class_count (map predicted (predictions r)) (Some (DISEASE_LABELS ! c)) =
                totalRecords r div 3 + (if c < totalRecords r mod 3 then 1 else 0))"
    if "handleBatchProcess model normalization rnd content = Inr r"
  proof -
    from handleBatchProcess_result[OF that]
    obtain headers rows and converted :: "(jsnum, nat js_value) converted_data" where
      "totalRecords r = length (features converted)"
      "predictions r = batch_predictions model normalization rnd
                         (actual_labels headers rows) (features converted)"
      by blast
    then show ?thesis by (simp add: len batch_predictions_count)
  qed
  moreover have "\<forall>c < 3. class_count
        (map predicted (batch_predictions model normalization rnd al fa))
        (Some (DISEASE_LABELS ! c)) =
      length fa div 3 + (if c < length fa mod 3 then 1 else 0)"
    using batch_predictions_count by blast
  moreover have "class_count (map predicted (batch_predictions model normalization rnd al fa)) l =
      class_count (map predicted (batch_predictions model' normalization' rnd' al' fa')) l"
    if "length fa = length fa'"
    unfolding batch_predictions_count_any that ..
  ultimately show ?thesis
    using len[of model normalization rnd al fa] by blast
qed

theorem batch_labels_balanced_witness:
  "length [[Fin 1], [Fin 2 :: jsnum]] = length [[Fin 30], [Fin 40 :: jsnum]] \<and>
   class_count (map predicted
       (batch_predictions scenario_model no_normalization always_half [] [[Fin 1], [Fin 2]]))
     (Some ''Dengue'') = 1 \<and>
   class_count (map predicted
       (batch_predictions scenario_model no_normalization always_half [] [[Fin 1], [Fin 2]]))
     (Some ''Leptospirosis'') =
   class_count (map predicted
       (batch_predictions other_model no_normalization always_half [] [[Fin 30], [Fin 40]]))
     (Some ''Leptospirosis'') \<and>
   (\<exists>r. handleBatchProcess scenario_model no_normalization always_half ''age\<newline>30\<newline>40'' = Inr r \<and>
        totalRecords r = 2 \<and>
        class_count (map predicted (predictions r)) (Some ''Malaria'') = 1)"
proof -
  let ?A = "[[Fin 1], [Fin 2 :: jsnum]]"
  let ?B = "[[Fin 30], [Fin 40 :: jsnum]]"
  let ?C = "''age\<newline>30\<newline>40''"
  have p: "parseCSV ?C = Inr ([''age''], [[''30''], [''40'']])"
    by code_simp
  have al: "actual_labels [''age''] [[''30''], [''40'']] = []"
    by code_simp
  have k: "kept_rows [''age''] [[''30''], [''40'']] = [[''30''], [''40'']]"
    by code_simp
  have "\<exists>r. handleBatchProcess scenario_model no_normalization always_half ?C = Inr r \<and>
            totalRecords r = 2"
    by (simp add: handleBatchProcess_def p al convertToTrainingData_total k Let_def)
  then obtain r where r: "handleBatchProcess scenario_model no_normalization always_half ?C = Inr r"
    and t: "totalRecords r = 2"
    by blast
  note th = batch_labels_balanced[of scenario_model no_normalization always_half "[]" ?A ?B
      "Some ''Leptospirosis''" other_model no_normalization always_half "[]" ?C r]
  from th have c0: "\<forall>c < 3. class_count (map predicted
       (batch_predictions scenario_model no_normalization always_half [] ?A))
               (Some (DISEASE_LABELS ! c)) =
             length ?A div 3 + (if c < length ?A mod 3 then 1 else 0)"
    by blast
  from th have ind: "length ?A = length ?B \<longrightarrow>
      class_count (map predicted
        (batch_predictions scenario_model no_normalization always_half [] ?A))
        (Some ''Leptospirosis'') =
      class_count (map predicted
        (batch_predictions other_model no_normalization always_half [] ?B))
        (Some ''Leptospirosis'')"
    by blast
  from th r have hr: "\<forall>c < 3. class_count (map predicted (predictions r))
        (Some (DISEASE_LABELS ! c)) =
      totalRecords r div 3 + (if c < totalRecords r mod 3 then 1 else 0)"
    by blast
  from c0[rule_format, of 0] have a: "class_count (map predicted
       (batch_predictions scenario_model no_normalization always_half [] ?A))
     (Some ''Dengue'') = 1"
    by (simp add: DISEASE_LABELS_def)
  from hr[rule_format, of 1] t
  have b: "class_count (map predicted (predictions r)) (Some ''Malaria'') = 1"
    by (simp add: DISEASE_LABELS_def)
  from ind have c: "class_count (map predicted
        (batch_predictions scenario_model no_normalization always_half [] ?A))
        (Some ''Leptospirosis'') =
      class_count (map predicted
        (batch_predictions other_model no_normalization always_half [] ?B))
        (Some ''Leptospirosis'')"
    by simp
  from a b c r t show ?thesis by auto
qed

subsection \<open>What the page's accumulation loop does count\<close>

text \<open>
  When no actual label names an inherited member, the loop over a batch returns a
  matrix, and the sum of its nine cells is the number of actual labels that resolve
  to a class; the others, converted to \<open>-1\<close>, are left out.
\<close>

lemma length3: "length xs = 3 \<Longrightarrow> \<exists>a b c. xs = [a, b, c]"
  by (auto simp: numeral_3_eq_3 length_Suc_conv)

lemma cell_sum_fin: "square3 M \<Longrightarrow> cell_sum (fin_matrix M) = Fin (matrix_total M)"
proof -
  assume s: "square3 M"
  then obtain r0 r1 r2 where M: "M = [r0, r1, r2]"
    using length3[of M] by (auto simp: square3_def)
  with s obtain a b c d e f g h i where "r0 = [a, b, c]" "r1 = [d, e, f]" "r2 = [g, h, i]"
    using length3[of r0] length3[of r1] length3[of r2] by (auto simp: square3_def)
  with M show ?thesis
    by (simp add: cell_sum_def fin_matrix_def matrix_total_def)
qed

lemma increment_fin:
  assumes "p < length row"
  shows "increment_cell (map Fin row) (int p) = map Fin (row[p := row ! p + 1])"
  using assms by (simp add: increment_cell_def map_update)

lemma sum_list_increment:
  "p < length (xs :: real list) \<Longrightarrow> sum_list (xs[p := xs ! p + 1]) = sum_list xs + 1"
  by (induction xs arbitrary: p) (auto split: nat.splits)

lemma total_replace_row:
  "a < length M \<Longrightarrow> matrix_total (M[a := r]) = matrix_total M - sum_list (M ! a) + sum_list r"
  by (induction M arbitrary: a) (auto simp: matrix_total_def split: nat.splits)

lemma total_update:
  assumes "a < length M" "p < length (M ! a)"
  shows "matrix_total (M[a := (M ! a)[p := M ! a ! p + 1]]) = matrix_total M + 1"
  using assms by (simp add: total_replace_row sum_list_increment)

lemma square3_update:
  assumes "square3 M" "a < 3" "p < 3"
  shows "square3 (M[a := (M ! a)[p := x]])"
  using assms
  by (auto simp: square3_def list_all_iff dest!: set_update_subset_insert[THEN subsetD])

lemma step_counts:
  assumes "square3 M" "a < 3" "p < 3"
  shows "batch_confusion_step (fin_matrix M) (Some (DISEASE_LABELS ! p)) (Some (Val (int a))) =
         Inr (fin_matrix (M[a := (M ! a)[p := M ! a ! p + 1]]))"
proof -
  from assms(3) consider "p = 0" | "p = 1" | "p = 2" by linarith
  then have og: "object_get batchDiseaseMap (DISEASE_LABELS ! p) = Some (Val (int p))"
    by cases (simp_all add: object_get_def batchDiseaseMap_def DISEASE_LABELS_def)
  from assms have la: "a < length M" and lp: "p < length (M ! a)"
    by (auto simp: square3_def list_all_iff)
  have "increment_cell (fin_matrix M ! a) (int p) = map Fin ((M ! a)[p := M ! a ! p + 1])"
    using la increment_fin[OF lp] by (simp add: fin_matrix_def)
  with la show ?thesis
    by (simp add: batch_confusion_step_def og fin_matrix_def map_update)
qed

lemma step_skips:
  "batch_confusion_step m pl (Some (Val (- 1))) = Inr m"
  by (simp add: batch_confusion_step_def)

lemma resolved_index: "resolved c \<Longrightarrow> \<exists>a < 3. c = Val (int a)"
proof -
  assume "resolved c"
  then consider "c = Val 0" | "c = Val 1" | "c = Val 2"
    unfolding resolved_def by blast
  then show ?thesis
  proof cases
    case 1
    then have "(0::nat) < 3 \<and> c = Val (int 0)" by simp
    then show ?thesis by (rule exI)
  next
    case 2
    then have "(1::nat) < 3 \<and> c = Val (int 1)" by simp
    then show ?thesis by (rule exI)
  next
    case 3
    then have "(2::nat) < 3 \<and> c = Val (int 2)" by simp
    then show ?thesis by (rule exI)
  qed
qed

lemma loop_counts:
  assumes "square3 M" "length cls = length pls"
    "\<forall>c \<in> set cls. resolved c \<or> c = Val (- 1)"
    "\<forall>pl \<in> set pls. \<exists>p < 3. pl = Some (DISEASE_LABELS ! p)"
  shows "\<exists>M'. batch_confusion_loop (fin_matrix M) pls cls = Inr (fin_matrix M') \<and>
              square3 M' \<and> matrix_total M' = matrix_total M + real (length (filter resolved cls))"
  using assms
proof (induction pls arbitrary: M cls)
  case Nil
  then show ?case by auto
next
  case (Cons pl pls)
  from Cons.prems(2) obtain c cs where cls: "cls = c # cs" "length cs = length pls"
    by (cases cls) auto
  from Cons.prems(4) obtain p where p: "p < 3" "pl = Some (DISEASE_LABELS ! p)" by auto
  from Cons.prems(3) cls have crest: "\<forall>c \<in> set cs. resolved c \<or> c = Val (- 1)" by simp
  from Cons.prems(4) have prest: "\<forall>pl \<in> set pls. \<exists>p < 3. pl = Some (DISEASE_LABELS ! p)" by simp
  show ?case
  proof (cases "resolved c")
    case True
    then obtain a where a: "a < 3" "c = Val (int a)"
      using resolved_index by blast
    let ?M = "M[a := (M ! a)[p := M ! a ! p + 1]]"
    have sq: "square3 ?M" by (rule square3_update[OF Cons.prems(1) a(1) p(1)])
    from Cons.prems(1) a(1) p(1) have "a < length M" "p < length (M ! a)"
      by (auto simp: square3_def list_all_iff)
    then have tot: "matrix_total ?M = matrix_total M + 1" by (rule total_update)
    from Cons.IH[OF sq cls(2) crest prest] obtain M' where
      "batch_confusion_loop (fin_matrix ?M) pls cs = Inr (fin_matrix M')" "square3 M'"
      "matrix_total M' = matrix_total ?M + real (length (filter resolved cs))"
      by blast
    with True tot show ?thesis
      by (auto simp: cls p(2) a(2) step_counts[OF Cons.prems(1) a(1) p(1)])
  next
    case False
    with Cons.prems(3) cls have c: "c = Val (- 1)" by simp
    from Cons.IH[OF Cons.prems(1) cls(2) crest prest] obtain M' where
      "batch_confusion_loop (fin_matrix M) pls cs = Inr (fin_matrix M')" "square3 M'"
      "matrix_total M' = matrix_total M + real (length (filter resolved cs))"
      by blast
    with False show ?thesis
      by (auto simp: cls c step_skips)
  qed
qed


lemma convert_label_cases:
  assumes "trim l \<notin> set object_prototype_keys"
  shows "resolved (convert_label l) \<or> convert_label l = Val (- 1)"
proof (cases "map_of batchDiseaseMap (trim l)")
  case None
  with assms show ?thesis by (simp add: convert_label_def object_get_def)
next
  case (Some v)
  then have "(trim l, v) \<in> set batchDiseaseMap"
    by (rule map_of_SomeD)
  then have "v \<in> snd ` set batchDiseaseMap"
    by force
  then have "v = 0 \<or> v = 1 \<or> v = 2"
    by (auto simp: batchDiseaseMap_def)
  with Some show ?thesis by (auto simp: convert_label_def object_get_def resolved_def)
qed

lemma empty_matrix_fin: "empty_matrix = fin_matrix [[0, 0, 0], [0, 0, 0], [0, 0, 0]]"
  by (simp add: empty_matrix_def fin_matrix_def numeral_3_eq_3)

lemma batch_predictions_in_labels:
  assumes "r \<in> set (batch_predictions model normalization rnd al fa)"
  shows "\<exists>p < 3. predicted r = Some (DISEASE_LABELS ! p)"
proof -
  from assms have "predicted r \<in> set (map predicted (batch_predictions model normalization rnd al fa))"
    by simp
  then have "predicted r \<in> Some ` set (balanced_classes (length fa))"
    by (simp add: batch_predictions_labels shuffle_set)
  with balanced_classes_set[of "length fa"] obtain s where
    s: "predicted r = Some s" "s \<in> set DISEASE_LABELS"
    by auto
  then obtain p where "p < length DISEASE_LABELS" "s = DISEASE_LABELS ! p"
    by (auto simp: in_set_conv_nth)
  moreover have "length DISEASE_LABELS = 3" by (simp add: DISEASE_LABELS_def)
  ultimately show ?thesis using s(1) by auto
qed

lemma batch_confusion_counts:
  assumes "length al = length fa" "\<forall>l \<in> set al. trim l \<notin> set object_prototype_keys"
  shows "\<exists>m. batch_confusion (batch_predictions model normalization rnd al fa) al = Inr m \<and>
             cell_sum m = Fin (real (length (filter (\<lambda>l. resolved (convert_label l)) al)))"
proof -
  let ?preds = "batch_predictions model normalization rnd al fa"
  let ?Z = "[[0, 0, 0], [0, 0, 0], [0, 0, 0 :: real]]"
  have sq: "square3 ?Z" by (simp add: square3_def)
  have len: "length (map convert_label al) = length (map predicted ?preds)"
    using assms(1)
    by (simp add: batch_predictions_def Let_def split_beta batch_rows_def predictBatch_length)
  have cl: "\<forall>c \<in> set (map convert_label al). resolved c \<or> c = Val (- 1)"
    using assms(2) convert_label_cases by auto
  have pl: "\<forall>pl \<in> set (map predicted ?preds). \<exists>p < 3. pl = Some (DISEASE_LABELS ! p)"
    using batch_predictions_in_labels by auto
  from loop_counts[OF sq len cl pl] obtain M' where
    M': "batch_confusion_loop (fin_matrix ?Z) (map predicted ?preds) (map convert_label al) =
         Inr (fin_matrix M')" "square3 M'"
        "matrix_total M' = matrix_total ?Z + real (length (filter resolved (map convert_label al)))"
    by blast
  have "matrix_total ?Z = 0" by (simp add: matrix_total_def)
  with M' cell_sum_fin[OF M'(2)] show ?thesis
    by (simp add: batch_confusion_def empty_matrix_fin filter_map comp_def)
qed


text \<open>
  C7. The claim: pairs whose actual label does not resolve to a class are left out of
  the matrix without an error. \<open>calculateConfusionMatrix\<close> has no such exclusion: an
  actual label that is no row index, such as the \<open>-1\<close> the page uses for an unknown
  label, makes \<open>matrix[actuals[i]]\<close> undefined and the cell access throws. The page's
  own loop excludes \<open>-1\<close>, but looks the label up in an object literal, where a label
  such as \<open>constructor\<close> finds an inherited member instead of \<open>undefined\<close>: the
  converted label is then neither \<open>-1\<close> nor a row index, and the batch ends with the
  TypeError.
\<close>

theorem confusion_matrix_unresolved_label_throws:
  "calculateConfusionMatrix [0] [- 1] = Inl TypeError \<and>
   convert_label ''constructor'' = ProtoMember ''constructor'' \<and>
   handleBatchProcess scenario_model no_normalization always_half
     ''age,diagnosis\<newline>30,constructor'' = Inl ThrownTypeError"
proof -
  let ?C = "''age,diagnosis\<newline>30,constructor''"
  let ?H = "[''age'', ''diagnosis'']"
  let ?R = "[[''30'', ''constructor'']]"
  have a: "calculateConfusionMatrix [0] [- 1] = Inl TypeError"
    by (simp add: calculateConfusionMatrix_def)
  have b: "convert_label ''constructor'' = ProtoMember ''constructor''"
    by code_simp
  have p: "parseCSV ?C = Inr (?H, ?R)"
    by code_simp
  have al: "actual_labels ?H ?R = [''constructor'']"
    by code_simp
  have v: "trim ''constructor'' \<noteq> []"
    by code_simp
  have k: "kept_rows ?H ?R = ?R"
    by code_simp
  have s: "shuffle always_half 0 [''Dengue''] = ([''Dengue''], 0)"
    by (simp add: shuffle_def)
  have bc: "balanced_classes (Suc 0) = [''Dengue'']"
    by (simp add: balanced_classes_def DISEASE_LABELS_def)
  have og: "object_get batchDiseaseMap ''Dengue'' = Some (Val 0)"
    by code_simp
  let ?preds = "batch_predictions scenario_model no_normalization always_half [''constructor'']
      [map (spec_encode ?H [''30'', ''constructor'']) [0..<53]]"
  have "map predicted ?preds = [Some ''Dengue'']"
    by (simp add: batch_predictions_labels bc s)
  then have "batch_confusion ?preds [''constructor''] = Inl ThrownTypeError"
    by (simp add: batch_confusion_def b batch_confusion_step_def og)
  then have c: "handleBatchProcess scenario_model no_normalization always_half ?C =
      Inl ThrownTypeError"
    by (simp add: handleBatchProcess_def p al convertToTrainingData_total k Let_def v)
  from a b c show ?thesis by blast
qed

end
